theory Spec2Isabelle
  imports Complex_Main "HOL-Library.AList"
begin

section \<open>The problem model consumed by the converter\<close>

text \<open>
  The converter \<^verbatim>\<open>InequalityToEquality\<close> (file
  \<^verbatim>\<open>_converters/inequality_to_equality.py\<close>) rewrites a quadratic program. The
  program container itself (\<^verbatim>\<open>_problems\<close>: variables, expressions, constraints,
  objective) is a collaborator whose interface the converter consumes. Numbers are
  modelled as exact reals: Python's floats are idealised, so that \<^verbatim>\<open>math.floor\<close>
  is \<open>\<lfloor>_\<rfloor>\<close> and \<^verbatim>\<open>float.is_integer\<close> is membership in the integers.
\<close>

datatype vartype = CONTINUOUS | BINARY | INTEGER | UNKNOWN_TYPE

datatype sense = LE | GE | EQ | UNKNOWN_SENSE

datatype obj_sense = MINIMIZE | MAXIMIZE

record variable =
  name :: string
  vartype :: vartype
  lowerbound :: real
  upperbound :: real

type_synonym linear_expression = "(string \<times> real) list"

type_synonym quadratic_expression = "((string \<times> string) \<times> real) list"

record linear_constraint =
  lc_linear :: linear_expression
  lc_sense :: sense
  lc_rhs :: real
  lc_name :: string

record quadratic_constraint =
  qc_linear :: linear_expression
  qc_quadratic :: quadratic_expression
  qc_sense :: sense
  qc_rhs :: real
  qc_name :: string

record objective =
  obj_constant :: real
  obj_linear :: linear_expression
  obj_quadratic :: quadratic_expression
  obj_sense :: obj_sense

record quadratic_program =
  qp_name :: string
  variables :: "variable list"
  linear_constraints :: "linear_constraint list"
  quadratic_constraints :: "quadratic_constraint list"
  objective :: objective

datatype error =
    Unsupported_mode string
  | Unsupported_variable_type vartype
  | Unsupported_sense string sense
  | Float_coefficients string
  | ValueError string
  | Duplicate_name string
  | Undeclared_variable string
  | KeyError string
  | IndexError
  | AttributeError

text \<open>
  What iterating over a numpy array yields: a one-dimensional array yields its
  floating-point scalars, a two-dimensional array yields its rows (arrays again).
\<close>

datatype ndelem = Scalar real | Row "real list"

subsection \<open>Collaborator operations\<close>

definition QuadraticProgram :: "string \<Rightarrow> quadratic_program" where
  \<comment> \<open>Modelled from the spec: the constructor of the problem container (\<^verbatim>\<open>_problems\<close>
      is not part of the converter's file): a model with the given name, no variable, no
      constraint and an empty objective.\<close>
  "QuadraticProgram n =
     \<lparr>qp_name = n, variables = [], linear_constraints = [], quadratic_constraints = [],
      objective = \<lparr>obj_constant = 0, obj_linear = [], obj_quadratic = [],
                   obj_sense = MINIMIZE\<rparr>\<rparr>"

definition add_variable ::
  "string \<Rightarrow> vartype \<Rightarrow> real \<Rightarrow> real \<Rightarrow> quadratic_program
     \<Rightarrow> error + quadratic_program" where
  \<comment> \<open>Modelled from the spec: variable registration of the problem container. Section 6:
      each operation creates a variable; names must be unique within a model or the
      collaborator must fail. Insertion order is the variable's index.\<close>
  "add_variable n t lb ub qp =
     (if n \<in> set (map name (variables qp)) then Inl (Duplicate_name n)
      else Inr (qp\<lparr>variables := variables qp @
                  [\<lparr>name = n, vartype = t, lowerbound = lb, upperbound = ub\<rparr>]\<rparr>))"

definition binary_var :: "string \<Rightarrow> quadratic_program \<Rightarrow> error + quadratic_program" where
  \<comment> \<open>Modelled from the spec: add-binary(name) of the problem container. It takes no
      bounds; a binary variable ranges over 0 and 1.\<close>
  "binary_var n qp = add_variable n BINARY 0 1 qp"

definition integer_var ::
  "string \<Rightarrow> real \<Rightarrow> real \<Rightarrow> quadratic_program \<Rightarrow> error + quadratic_program" where
  \<comment> \<open>Modelled from the spec: add-integer(name, lower, upper) of the problem container.\<close>
  "integer_var n lb ub qp = add_variable n INTEGER lb ub qp"

definition continuous_var ::
  "string \<Rightarrow> real \<Rightarrow> real \<Rightarrow> quadratic_program \<Rightarrow> error + quadratic_program" where
  \<comment> \<open>Modelled from the spec: add-continuous(name, lower, upper) of the problem container.\<close>
  "continuous_var n lb ub qp = add_variable n CONTINUOUS lb ub qp"

definition declared :: "quadratic_program \<Rightarrow> string \<Rightarrow> bool" where
  "declared qp n = (n \<in> set (map name (variables qp)))"

definition linear_constraint ::
  "linear_expression \<Rightarrow> sense \<Rightarrow> real \<Rightarrow> string \<Rightarrow> quadratic_program
     \<Rightarrow> error + quadratic_program" where
  \<comment> \<open>Modelled from the spec: add-linear-constraint(linear-map, sense, rhs, name) of the
      problem container; it fails if any referenced variable name is undeclared.\<close>
  "linear_constraint lin s r n qp =
     (case find (\<lambda>k. \<not> declared qp k) (map fst lin) of
        Some k \<Rightarrow> Inl (Undeclared_variable k)
      | None \<Rightarrow> Inr (qp\<lparr>linear_constraints := linear_constraints qp @
                    [\<lparr>lc_linear = lin, lc_sense = s, lc_rhs = r, lc_name = n\<rparr>]\<rparr>))"

definition quadratic_constraint ::
  "linear_expression \<Rightarrow> quadratic_expression \<Rightarrow> sense \<Rightarrow> real \<Rightarrow> string
     \<Rightarrow> quadratic_program \<Rightarrow> error + quadratic_program" where
  \<comment> \<open>Modelled from the spec: add-quadratic-constraint(linear-map, quadratic-map, sense,
      rhs, name) of the problem container; it fails if any referenced variable name is
      undeclared.\<close>
  "quadratic_constraint lin quad s r n qp =
     (case find (\<lambda>k. \<not> declared qp k)
             (map fst lin @ concat (map (\<lambda>((a, b), c). [a, b]) quad)) of
        Some k \<Rightarrow> Inl (Undeclared_variable k)
      | None \<Rightarrow> Inr (qp\<lparr>quadratic_constraints := quadratic_constraints qp @
                    [\<lparr>qc_linear = lin, qc_quadratic = quad, qc_sense = s, qc_rhs = r,
                      qc_name = n\<rparr>]\<rparr>))"

definition set_objective ::
  "obj_sense \<Rightarrow> real \<Rightarrow> linear_expression \<Rightarrow> quadratic_expression \<Rightarrow> quadratic_program
     \<Rightarrow> quadratic_program" where
  \<comment> \<open>Modelled from the spec: set-minimize / set-maximize(constant, linear-map,
      quadratic-map) of the problem container.\<close>
  "set_objective s c lin quad qp =
     qp\<lparr>objective := \<lparr>obj_constant = c, obj_linear = lin, obj_quadratic = quad,
                       obj_sense = s\<rparr>\<rparr>"

definition get_variable :: "quadratic_program \<Rightarrow> string \<Rightarrow> error + variable" where
  \<comment> \<open>Modelled from the spec: model introspection, the variable of a given name.\<close>
  "get_variable qp n =
     (case find (\<lambda>v. name v = n) (variables qp) of
        None \<Rightarrow> Inl (KeyError n)
      | Some v \<Rightarrow> Inr v)"

definition coefficient :: "('k \<times> real) list \<Rightarrow> 'k \<Rightarrow> real" where
  "coefficient e k = (case map_of e k of None \<Rightarrow> 0 | Some c \<Rightarrow> c)"

definition linear_to_array :: "quadratic_program \<Rightarrow> linear_expression \<Rightarrow> ndelem list" where
  \<comment> \<open>Modelled from the spec: dense-array materialisation of a linear expression: one
      scalar per variable of the owning model, in index order.\<close>
  "linear_to_array qp lin = map (\<lambda>x. Scalar (coefficient lin (name x))) (variables qp)"

definition quadratic_to_array ::
  "quadratic_program \<Rightarrow> quadratic_expression \<Rightarrow> ndelem list" where
  \<comment> \<open>Modelled from the spec: dense-array form of a quadratic expression. The expression
      maps pairs of variables to coefficients, so its dense form is a square matrix: one
      row per variable of the owning model, one column per variable.\<close>
  "quadratic_to_array qp quad =
     map (\<lambda>x. Row (map (\<lambda>y. coefficient quad (name x, name y)) (variables qp)))
       (variables qp)"

definition linear_to_dict :: "linear_expression \<Rightarrow> (string \<times> real) list" where
  \<comment> \<open>Modelled from the spec: the coefficient mapping keyed by variable name.\<close>
  "linear_to_dict lin = lin"

fun linear_bounds :: "quadratic_program \<Rightarrow> linear_expression \<Rightarrow> error + (real \<times> real)" where
  \<comment> \<open>Modelled from the spec: the achievable interval of a linear expression, the sum of
      each linear term's bound under the variable bounds of the owning model.\<close>
  "linear_bounds qp [] = Inr (0, 0)"
| "linear_bounds qp ((n, c) # ts) =
     (case get_variable qp n of
        Inl e \<Rightarrow> Inl e
      | Inr x \<Rightarrow>
          (case linear_bounds qp ts of
             Inl e \<Rightarrow> Inl e
           | Inr (l, u) \<Rightarrow>
               Inr (min (c * lowerbound x) (c * upperbound x) + l,
                    max (c * lowerbound x) (c * upperbound x) + u)))"

definition product_interval :: "variable \<Rightarrow> variable \<Rightarrow> real list" where
  "product_interval x y =
     [lowerbound x * lowerbound y, lowerbound x * upperbound y,
      upperbound x * lowerbound y, upperbound x * upperbound y]"

fun quadratic_bounds ::
  "quadratic_program \<Rightarrow> quadratic_expression \<Rightarrow> error + (real \<times> real)" where
  \<comment> \<open>Modelled from the spec: the achievable interval of a quadratic expression by
      interval arithmetic over the variable bounds of the owning model.\<close>
  "quadratic_bounds qp [] = Inr (0, 0)"
| "quadratic_bounds qp (((a, b), c) # ts) =
     (case get_variable qp a of
        Inl e \<Rightarrow> Inl e
      | Inr x \<Rightarrow>
          (case get_variable qp b of
             Inl e \<Rightarrow> Inl e
           | Inr y \<Rightarrow>
               (case quadratic_bounds qp ts of
                  Inl e \<Rightarrow> Inl e
                | Inr (l, u) \<Rightarrow>
                    Inr (Min (set (map ((*) c) (product_interval x y))) + l,
                         Max (set (map ((*) c) (product_interval x y))) + u))))"

section \<open>The converter\<close>

record converter =
  src :: "quadratic_program option"
  dst :: "quadratic_program option"
  mode :: string

definition delimiter :: string where
  "delimiter = ''@''"

definition init :: "string \<Rightarrow> converter" where
  "init m = \<lparr>src = None, dst = None, mode = m\<rparr>"

definition set_mode :: "string \<Rightarrow> converter \<Rightarrow> converter" where
  "set_mode m self = self\<lparr>mode := m\<rparr>"

definition get_mode :: "converter \<Rightarrow> string" where
  "get_mode self = mode self"

definition is_integer :: "real \<Rightarrow> bool" where
  "is_integer v = (of_int \<lfloor>v\<rfloor> = v)"

definition any_float :: "ndelem list \<Rightarrow> bool" where
  \<comment> \<open>\<^verbatim>\<open>any(isinstance(v, float) and not v.is_integer() for v in values)\<close>: a row of a
      two-dimensional array is not an instance of \<^verbatim>\<open>float\<close>.\<close>
  "any_float vals =
     list_ex (\<lambda>v. case v of Scalar r \<Rightarrow> \<not> is_integer r | Row _ \<Rightarrow> False) vals"

definition resolve_mode :: "string \<Rightarrow> bool \<Rightarrow> string \<Rightarrow> error + string" where
  \<comment> \<open>The effective mode of one inequality constraint (the local \<^verbatim>\<open>mode\<close> after the
      \<^verbatim>\<open>if mode == "integer" ... elif mode == "auto"\<close> block).\<close>
  "resolve_mode m any_flt n =
     (if m = ''integer'' then (if any_flt then Inl (Float_coefficients n) else Inr m)
      else if m = ''auto'' then Inr (if any_flt then ''continuous'' else ''integer'')
      else Inr m)"

definition adjust_rhs :: "string \<Rightarrow> sense \<Rightarrow> real \<Rightarrow> real" where
  \<comment> \<open>\<^verbatim>\<open>new_rhs\<close>: under the integer mode the right-hand side is rounded down for
      \<^verbatim>\<open>LE\<close> and up for \<^verbatim>\<open>GE\<close>.\<close>
  "adjust_rhs m s rhs =
     (if m = ''integer'' then
        (let r1 = (if s = LE then of_int \<lfloor>rhs\<rfloor> else rhs)
         in if s = GE then of_int \<lceil>r1\<rceil> else r1)
      else rhs)"

definition slack_bound :: "sense \<Rightarrow> real \<Rightarrow> real \<Rightarrow> real \<Rightarrow> real \<times> real" where
  \<comment> \<open>The pair \<^verbatim>\<open>(var_ub, sign)\<close>.\<close>
  "slack_bound s new_rhs lhs_lb lhs_ub =
     (if s = LE then
        (let var_ub = new_rhs - lhs_lb in (var_ub, if var_ub > 0 then 1 else 0))
      else if s = GE then
        (let var_ub = lhs_ub - new_rhs in (var_ub, if var_ub > 0 then - 1 else 0))
      else (0, 0))"

definition mode_name :: "string \<Rightarrow> string option" where
  "mode_name = map_of [(''integer'', ''int''), (''continuous'', ''continuous'')]"

definition slack_name :: "string \<Rightarrow> string \<Rightarrow> string" where
  "slack_name n tag = n @ delimiter @ tag @ ''_slack''"

definition add_slack_var ::
  "string \<Rightarrow> string \<Rightarrow> real \<Rightarrow> real \<Rightarrow> (string \<times> real) list \<Rightarrow> quadratic_program
     \<Rightarrow> error + ((string \<times> real) list \<times> quadratic_program)" where
  \<comment> \<open>The block \<^verbatim>\<open>if var_ub > 0: ...\<close> shared by the linear and the quadratic case:
      the slack variable is registered in the destination model and entered into the
      rewritten linear dictionary.\<close>
  "add_slack_var m n var_ub sign new_linear d =
     (if var_ub > 0 then
        (case mode_name m of
           None \<Rightarrow> Inl (KeyError m)
         | Some tag \<Rightarrow>
             (case (if m = ''integer'' then integer_var (slack_name n tag) 0 var_ub d
                    else if m = ''continuous'' then
                      continuous_var (slack_name n tag) 0 var_ub d
                    else Inr d) of
                Inl e \<Rightarrow> Inl e
              | Inr d' \<Rightarrow> Inr (AList.update (slack_name n tag) sign new_linear, d')))
      else Inr (new_linear, d))"

type_synonym linear_args = "(string \<times> real) list \<times> sense \<times> real \<times> string"

type_synonym quadratic_args =
  "(string \<times> real) list \<times> quadratic_expression \<times> sense \<times> real \<times> string"

text \<open>
  The expressions of a constraint refer to the model that owns them (in the source a
  back-reference of the expression object); here the owner is passed along with the
  constraint. In \<^verbatim>\<open>convert\<close> the owner is the copy of the problem held in
  \<^verbatim>\<open>self._src\<close>.

  Each of the two slack functions first computes, without any effect, the effective mode,
  \<^verbatim>\<open>new_rhs\<close>, \<^verbatim>\<open>var_ub\<close> and \<^verbatim>\<open>sign\<close>; only its last block touches
  the destination model. The computation is named here so that theorems can refer to it.
  The sense that the functions return as the string \<^verbatim>\<open>"=="\<close> is the builder's
  spelling of \<^verbatim>\<open>Constraint.Sense.EQ\<close>.
\<close>

definition linear_slack_params ::
  "string \<Rightarrow> quadratic_program \<Rightarrow> linear_constraint
     \<Rightarrow> error + (string \<times> real \<times> real \<times> real)" where
  "linear_slack_params md owner constraint =
     (let linear = lc_linear constraint;
          sense = lc_sense constraint;
          n = lc_name constraint;
          any_flt = any_float (linear_to_array owner linear)
      in case resolve_mode md any_flt n of
           Inl e \<Rightarrow> Inl e
         | Inr m \<Rightarrow>
             (let new_rhs = adjust_rhs m sense (lc_rhs constraint)
              in case linear_bounds owner linear of
                   Inl e \<Rightarrow> Inl e
                 | Inr (lhs_lb, lhs_ub) \<Rightarrow>
                     (let (var_ub, sign) = slack_bound sense new_rhs lhs_lb lhs_ub
                      in Inr (m, new_rhs, var_ub, sign))))"

definition add_slack_var_linear_constraint ::
  "converter \<Rightarrow> quadratic_program \<Rightarrow> linear_constraint
     \<Rightarrow> (error + linear_args) \<times> converter" where
  "add_slack_var_linear_constraint self owner constraint =
     (case dst self of
        None \<Rightarrow> (Inl (ValueError ''QuadraticProgram not initialized!''), self)
      | Some d \<Rightarrow>
          (case linear_slack_params (mode self) owner constraint of
             Inl e \<Rightarrow> (Inl e, self)
           | Inr (m, new_rhs, var_ub, sign) \<Rightarrow>
               (case add_slack_var m (lc_name constraint) var_ub sign
                       (linear_to_dict (lc_linear constraint)) d of
                  Inl e \<Rightarrow> (Inl e, self)
                | Inr (new_linear, d') \<Rightarrow>
                    (Inr (new_linear, EQ, new_rhs, lc_name constraint),
                     self\<lparr>dst := Some d'\<rparr>))))"

definition quadratic_slack_params ::
  "string \<Rightarrow> quadratic_program \<Rightarrow> quadratic_constraint
     \<Rightarrow> error + (string \<times> real \<times> real \<times> real)" where
  "quadratic_slack_params md owner constraint =
     (let quadratic = qc_quadratic constraint;
          linear = qc_linear constraint;
          sense = qc_sense constraint;
          n = qc_name constraint;
          any_flt = (any_float (linear_to_array owner linear)
                     \<or> any_float (quadratic_to_array owner quadratic))
      in case resolve_mode md any_flt n of
           Inl e \<Rightarrow> Inl e
         | Inr m \<Rightarrow>
             (let new_rhs = adjust_rhs m sense (qc_rhs constraint)
              in case linear_bounds owner linear of
                   Inl e \<Rightarrow> Inl e
                 | Inr (lin_lb, lin_ub) \<Rightarrow>
                     (case quadratic_bounds owner quadratic of
                        Inl e \<Rightarrow> Inl e
                      | Inr (quad_lb, quad_ub) \<Rightarrow>
                          (let lhs_lb = lin_lb + quad_lb;
                               lhs_ub = lin_ub + quad_ub;
                               (var_ub, sign) = slack_bound sense new_rhs lhs_lb lhs_ub
                           in Inr (m, new_rhs, var_ub, sign)))))"

definition add_slack_var_quadratic_constraint ::
  "converter \<Rightarrow> quadratic_program \<Rightarrow> quadratic_constraint
     \<Rightarrow> (error + quadratic_args) \<times> converter" where
  "add_slack_var_quadratic_constraint self owner constraint =
     (case dst self of
        None \<Rightarrow> (Inl (ValueError ''QuadraticProgram not initialized!''), self)
      | Some d \<Rightarrow>
          (case quadratic_slack_params (mode self) owner constraint of
             Inl e \<Rightarrow> (Inl e, self)
           | Inr (m, new_rhs, var_ub, sign) \<Rightarrow>
               (case add_slack_var m (qc_name constraint) var_ub sign
                       (linear_to_dict (qc_linear constraint)) d of
                  Inl e \<Rightarrow> (Inl e, self)
                | Inr (new_linear, d') \<Rightarrow>
                    (Inr (new_linear, qc_quadratic constraint, EQ, new_rhs,
                          qc_name constraint),
                     self\<lparr>dst := Some d'\<rparr>))))"

subsection \<open>The phases of convert\<close>

definition on_dst ::
  "(quadratic_program \<Rightarrow> error + quadratic_program) \<Rightarrow> converter
     \<Rightarrow> (error + unit) \<times> converter" where
  \<comment> \<open>A builder call \<^verbatim>\<open>self._dst.f(...)\<close>: when it raises, the destination model
      is as it was before the call.\<close>
  "on_dst f self =
     (case dst self of
        None \<Rightarrow> (Inl AttributeError, self)
      | Some d \<Rightarrow>
          (case f d of
             Inl e \<Rightarrow> (Inl e, self)
           | Inr d' \<Rightarrow> (Inr (), self\<lparr>dst := Some d'\<rparr>)))"

definition copy_variable :: "variable \<Rightarrow> quadratic_program \<Rightarrow> error + quadratic_program" where
  "copy_variable x d =
     (if vartype x = BINARY then binary_var (name x) d
      else if vartype x = INTEGER then
        integer_var (name x) (lowerbound x) (upperbound x) d
      else if vartype x = CONTINUOUS then
        continuous_var (name x) (lowerbound x) (upperbound x) d
      else Inl (Unsupported_variable_type (vartype x)))"

fun copy_variables :: "variable list \<Rightarrow> converter \<Rightarrow> (error + unit) \<times> converter" where
  "copy_variables [] self = (Inr (), self)"
| "copy_variables (x # xs) self =
     (case on_dst (copy_variable x) self of
        (Inl e, self') \<Rightarrow> (Inl e, self')
      | (Inr u, self') \<Rightarrow> copy_variables xs self')"

fun slack_linear_constraints ::
  "quadratic_program \<Rightarrow> linear_constraint list \<Rightarrow> linear_args list \<Rightarrow> converter
     \<Rightarrow> (error + linear_args list) \<times> converter" where
  "slack_linear_constraints owner [] new_linear_constraints self =
     (Inr new_linear_constraints, self)"
| "slack_linear_constraints owner (lin_const # cs) new_linear_constraints self =
     (if lc_sense lin_const = EQ then
        slack_linear_constraints owner cs
          (new_linear_constraints @
             [(lc_linear lin_const, lc_sense lin_const, lc_rhs lin_const, lc_name lin_const)])
          self
      else if lc_sense lin_const \<in> set [LE, GE] then
        (case add_slack_var_linear_constraint self owner lin_const of
           (Inl e, self') \<Rightarrow> (Inl e, self')
         | (Inr args, self') \<Rightarrow>
             slack_linear_constraints owner cs (new_linear_constraints @ [args]) self')
      else (Inl (Unsupported_sense (lc_name lin_const) (lc_sense lin_const)), self))"

fun slack_quadratic_constraints ::
  "quadratic_program \<Rightarrow> quadratic_constraint list \<Rightarrow> quadratic_args list \<Rightarrow> converter
     \<Rightarrow> (error + quadratic_args list) \<times> converter" where
  "slack_quadratic_constraints owner [] new_quadratic_constraints self =
     (Inr new_quadratic_constraints, self)"
| "slack_quadratic_constraints owner (quad_const # cs) new_quadratic_constraints self =
     (if qc_sense quad_const = EQ then
        slack_quadratic_constraints owner cs
          (new_quadratic_constraints @
             [(qc_linear quad_const, qc_quadratic quad_const, qc_sense quad_const,
               qc_rhs quad_const, qc_name quad_const)])
          self
      else if qc_sense quad_const \<in> set [LE, GE] then
        (case add_slack_var_quadratic_constraint self owner quad_const of
           (Inl e, self') \<Rightarrow> (Inl e, self')
         | (Inr args, self') \<Rightarrow>
             slack_quadratic_constraints owner cs (new_quadratic_constraints @ [args]) self')
      else (Inl (Unsupported_sense (qc_name quad_const) (qc_sense quad_const)), self))"

definition copy_objective :: "quadratic_program \<Rightarrow> quadratic_program \<Rightarrow> quadratic_program" where
  "copy_objective s d =
     (let constant = obj_constant (objective s);
          linear = linear_to_dict (obj_linear (objective s));
          quadratic = obj_quadratic (objective s)
      in if obj_sense (objective s) = MINIMIZE then set_objective MINIMIZE constant linear quadratic d
         else set_objective MAXIMIZE constant linear quadratic d)"

fun add_linear_constraints ::
  "linear_args list \<Rightarrow> converter \<Rightarrow> (error + unit) \<times> converter" where
  "add_linear_constraints [] self = (Inr (), self)"
| "add_linear_constraints ((lin, s, r, n) # rest) self =
     (case on_dst (linear_constraint lin s r n) self of
        (Inl e, self') \<Rightarrow> (Inl e, self')
      | (Inr u, self') \<Rightarrow> add_linear_constraints rest self')"

fun add_quadratic_constraints ::
  "quadratic_args list \<Rightarrow> converter \<Rightarrow> (error + unit) \<times> converter" where
  "add_quadratic_constraints [] self = (Inr (), self)"
| "add_quadratic_constraints ((lin, quad, s, r, n) # rest) self =
     (case on_dst (quadratic_constraint lin quad s r n) self of
        (Inl e, self') \<Rightarrow> (Inl e, self')
      | (Inr u, self') \<Rightarrow> add_quadratic_constraints rest self')"

definition build_constraints ::
  "quadratic_program \<Rightarrow> linear_args list \<Rightarrow> quadratic_args list \<Rightarrow> converter
     \<Rightarrow> (error + quadratic_program) \<times> converter" where
  \<comment> \<open>The tail of \<^verbatim>\<open>convert\<close>: copy the objective, add the constraints, return
      \<^verbatim>\<open>self._dst\<close>.\<close>
  "build_constraints owner new_lin new_quad self =
     (case on_dst (\<lambda>d. Inr (copy_objective owner d)) self of
        (Inl e, self1) \<Rightarrow> (Inl e, self1)
      | (Inr u, self1) \<Rightarrow>
          (case add_linear_constraints new_lin self1 of
             (Inl e, self2) \<Rightarrow> (Inl e, self2)
           | (Inr u, self2) \<Rightarrow>
               (case add_quadratic_constraints new_quad self2 of
                  (Inl e, self3) \<Rightarrow> (Inl e, self3)
                | (Inr u, self3) \<Rightarrow>
                    (case dst self3 of
                       None \<Rightarrow> (Inl AttributeError, self3)
                     | Some d \<Rightarrow> (Inr d, self3)))))"

definition convert ::
  "converter \<Rightarrow> quadratic_program \<Rightarrow> (error + quadratic_program) \<times> converter" where
  "convert self problem =
     (let self0 = self\<lparr>src := Some problem, dst := Some (QuadraticProgram (qp_name problem))\<rparr>;
          m = mode self0
      in if m \<notin> set [''integer'', ''continuous'', ''auto''] then
           (Inl (Unsupported_mode m), self0)
         else
           (case copy_variables (variables problem) self0 of
              (Inl e, self1) \<Rightarrow> (Inl e, self1)
            | (Inr u, self1) \<Rightarrow>
                (case slack_linear_constraints problem (linear_constraints problem) [] self1 of
                   (Inl e, self2) \<Rightarrow> (Inl e, self2)
                 | (Inr new_lin, self2) \<Rightarrow>
                     (case slack_quadratic_constraints problem
                             (quadratic_constraints problem) [] self2 of
                        (Inl e, self3) \<Rightarrow> (Inl e, self3)
                      | (Inr new_quad, self3) \<Rightarrow>
                          build_constraints problem new_lin new_quad self3))))"

definition interpret_solution :: "converter \<Rightarrow> real list \<Rightarrow> error + real list" where
  \<comment> \<open>The dictionary \<^verbatim>\<open>sol\<close> is built in the order of the destination names, a later
      entry replacing an earlier one of the same name; \<^verbatim>\<open>x[i]\<close> beyond the end of
      \<^verbatim>\<open>x\<close> raises, as does a name missing from \<^verbatim>\<open>sol\<close>.\<close>
  "interpret_solution self x =
     (case (dst self, src self) of
        (Some d, Some s) \<Rightarrow>
          (let names = map name (variables d)
           in if length x < length names then Inl IndexError
              else
                (let sol = map_of (rev (zip names x))
                 in case find (\<lambda>var. sol (name var) = None) (variables s) of
                      Some var \<Rightarrow> Inl (KeyError (name var))
                    | None \<Rightarrow> Inr (map (\<lambda>var. the (sol (name var))) (variables s))))
      | _ \<Rightarrow> Inl (ValueError ''QuadraticProgram not initialized!''))"

section \<open>Notions used in the statements\<close>

text \<open>
  What the variable-copying loop registers for a source variable: the variable itself,
  except that a binary variable is registered by name only and so has the bounds 0 and 1.
\<close>

definition copied :: "variable \<Rightarrow> variable" where
  "copied x = (if vartype x = BINARY then x\<lparr>lowerbound := 0, upperbound := 1\<rparr> else x)"

definition names :: "quadratic_program \<Rightarrow> string list" where
  "names d = map name (variables d)"

text \<open>
  A model extends another one when it differs from it by further variables at the end,
  and its names are distinct if they were.
\<close>

definition extends :: "quadratic_program \<Rightarrow> quadratic_program \<Rightarrow> bool" where
  "extends d d' =
     ((\<exists>extra. d' = d\<lparr>variables := variables d @ extra\<rparr>)
      \<and> (distinct (names d) \<longrightarrow> distinct (names d')))"

text \<open>
  The constraint that the builder stores for an argument tuple.
\<close>

definition linear_record :: "linear_args \<Rightarrow> linear_constraint" where
  "linear_record a =
     (case a of (lin, s, r, n) \<Rightarrow> \<lparr>lc_linear = lin, lc_sense = s, lc_rhs = r, lc_name = n\<rparr>)"

definition quadratic_record :: "quadratic_args \<Rightarrow> quadratic_constraint" where
  "quadratic_record a =
     (case a of (lin, quad, s, r, n) \<Rightarrow>
        \<lparr>qc_linear = lin, qc_quadratic = quad, qc_sense = s, qc_rhs = r, qc_name = n\<rparr>)"

text \<open>
  The outcome of rewriting one constraint, stated from the computed parameters (effective
  mode, adjusted right-hand side, slack bound, sign): the name tag of the slack variable,
  the linear terms with the slack term, the slack variables created (none or one) and the
  emitted constraint. The lemmas below show that the phases of \<^verbatim>\<open>convert\<close>
  compute exactly these.
\<close>

definition tag_of :: "string \<Rightarrow> string" where
  "tag_of m = (case mode_name m of Some t \<Rightarrow> t | None \<Rightarrow> [])"

definition slack_term ::
  "string \<Rightarrow> string \<Rightarrow> real \<Rightarrow> real \<Rightarrow> (string \<times> real) list \<Rightarrow> (string \<times> real) list" where
  "slack_term m n ub sg lin =
     (if 0 < ub then AList.update (slack_name n (tag_of m)) sg lin else lin)"

definition slack_variables :: "string \<Rightarrow> string \<Rightarrow> real \<Rightarrow> variable list" where
  "slack_variables m n ub =
     (if 0 < ub then
        [\<lparr>name = slack_name n (tag_of m),
          vartype = (if m = ''integer'' then INTEGER else CONTINUOUS),
          lowerbound = 0, upperbound = ub\<rparr>]
      else [])"

definition linear_emitted ::
  "string \<Rightarrow> quadratic_program \<Rightarrow> linear_constraint \<Rightarrow> linear_constraint option" where
  "linear_emitted md owner c =
     (if lc_sense c = EQ then Some c
      else (case linear_slack_params md owner c of
              Inl e \<Rightarrow> None
            | Inr (m, nr, ub, sg) \<Rightarrow>
                Some \<lparr>lc_linear = slack_term m (lc_name c) ub sg (lc_linear c),
                      lc_sense = EQ, lc_rhs = nr, lc_name = lc_name c\<rparr>))"

definition linear_slacks ::
  "string \<Rightarrow> quadratic_program \<Rightarrow> linear_constraint \<Rightarrow> variable list" where
  "linear_slacks md owner c =
     (if lc_sense c = EQ then []
      else (case linear_slack_params md owner c of
              Inl e \<Rightarrow> []
            | Inr (m, nr, ub, sg) \<Rightarrow> slack_variables m (lc_name c) ub))"

definition quadratic_emitted ::
  "string \<Rightarrow> quadratic_program \<Rightarrow> quadratic_constraint \<Rightarrow> quadratic_constraint option" where
  "quadratic_emitted md owner c =
     (if qc_sense c = EQ then Some c
      else (case quadratic_slack_params md owner c of
              Inl e \<Rightarrow> None
            | Inr (m, nr, ub, sg) \<Rightarrow>
                Some \<lparr>qc_linear = slack_term m (qc_name c) ub sg (qc_linear c),
                      qc_quadratic = qc_quadratic c,
                      qc_sense = EQ, qc_rhs = nr, qc_name = qc_name c\<rparr>))"

definition quadratic_slacks ::
  "string \<Rightarrow> quadratic_program \<Rightarrow> quadratic_constraint \<Rightarrow> variable list" where
  "quadratic_slacks md owner c =
     (if qc_sense c = EQ then []
      else (case quadratic_slack_params md owner c of
              Inl e \<Rightarrow> []
            | Inr (m, nr, ub, sg) \<Rightarrow> slack_variables m (qc_name c) ub))"




subsection \<open>Concrete models\<close>

definition example_problem :: quadratic_program where
  "example_problem =
     \<lparr>qp_name = ''example'',
      variables =
        [\<lparr>name = ''x'', vartype = INTEGER, lowerbound = 0, upperbound = 10\<rparr>,
         \<lparr>name = ''y'', vartype = BINARY, lowerbound = 0, upperbound = 1\<rparr>,
         \<lparr>name = ''z'', vartype = CONTINUOUS, lowerbound = 1 / 2, upperbound = 4\<rparr>],
      linear_constraints =
        [\<lparr>lc_linear = [(''x'', 1), (''y'', 2)], lc_sense = LE, lc_rhs = 7 / 2,
          lc_name = ''c0''\<rparr>,
         \<lparr>lc_linear = [(''x'', 1), (''z'', 1 / 2)], lc_sense = GE, lc_rhs = 3,
          lc_name = ''c1''\<rparr>,
         \<lparr>lc_linear = [(''y'', 1)], lc_sense = EQ, lc_rhs = 1, lc_name = ''c2''\<rparr>],
      quadratic_constraints =
        [\<lparr>qc_linear = [(''x'', 1)], qc_quadratic = [((''x'', ''y''), 1)], qc_sense = LE,
          qc_rhs = 5, qc_name = ''q0''\<rparr>],
      objective = \<lparr>obj_constant = 0, obj_linear = [(''x'', 1)], obj_quadratic = [],
                   obj_sense = MAXIMIZE\<rparr>\<rparr>"

definition example_destination :: quadratic_program where
  "example_destination =
     \<lparr>qp_name = ''example'',
      variables =
        [\<lparr>name = ''x'', vartype = INTEGER, lowerbound = 0, upperbound = 10\<rparr>,
         \<lparr>name = ''y'', vartype = BINARY, lowerbound = 0, upperbound = 1\<rparr>,
         \<lparr>name = ''z'', vartype = CONTINUOUS, lowerbound = 1 / 2, upperbound = 4\<rparr>,
         \<lparr>name = ''c0@int_slack'', vartype = INTEGER, lowerbound = 0, upperbound = 3\<rparr>,
         \<lparr>name = ''c1@continuous_slack'', vartype = CONTINUOUS, lowerbound = 0,
          upperbound = 9\<rparr>,
         \<lparr>name = ''q0@int_slack'', vartype = INTEGER, lowerbound = 0, upperbound = 5\<rparr>],
      linear_constraints =
        [\<lparr>lc_linear = [(''x'', 1), (''y'', 2), (''c0@int_slack'', 1)], lc_sense = EQ,
          lc_rhs = 3, lc_name = ''c0''\<rparr>,
         \<lparr>lc_linear = [(''x'', 1), (''z'', 1 / 2), (''c1@continuous_slack'', - 1)],
          lc_sense = EQ, lc_rhs = 3, lc_name = ''c1''\<rparr>,
         \<lparr>lc_linear = [(''y'', 1)], lc_sense = EQ, lc_rhs = 1, lc_name = ''c2''\<rparr>],
      quadratic_constraints =
        [\<lparr>qc_linear = [(''x'', 1), (''q0@int_slack'', 1)],
          qc_quadratic = [((''x'', ''y''), 1)], qc_sense = EQ, qc_rhs = 5,
          qc_name = ''q0''\<rparr>],
      objective = \<lparr>obj_constant = 0, obj_linear = [(''x'', 1)], obj_quadratic = [],
                   obj_sense = MAXIMIZE\<rparr>\<rparr>"

definition example_converter :: converter where
  "example_converter =
     \<lparr>src = Some example_problem, dst = Some example_destination, mode = ''auto''\<rparr>"

definition fixed_binary_problem :: quadratic_program where
  "fixed_binary_problem =
     \<lparr>qp_name = ''fixed'',
      variables = [\<lparr>name = ''b'', vartype = BINARY, lowerbound = 0, upperbound = 0\<rparr>],
      linear_constraints = [],
      quadratic_constraints = [],
      objective = \<lparr>obj_constant = 0, obj_linear = [(''b'', 1)], obj_quadratic = [],
                   obj_sense = MINIMIZE\<rparr>\<rparr>"

definition fixed_binary_destination :: quadratic_program where
  "fixed_binary_destination =
     \<lparr>qp_name = ''fixed'',
      variables = [\<lparr>name = ''b'', vartype = BINARY, lowerbound = 0, upperbound = 1\<rparr>],
      linear_constraints = [],
      quadratic_constraints = [],
      objective = \<lparr>obj_constant = 0, obj_linear = [(''b'', 1)], obj_quadratic = [],
                   obj_sense = MINIMIZE\<rparr>\<rparr>"

definition small_problem :: quadratic_program where
  "small_problem =
     \<lparr>qp_name = ''small'',
      variables = [\<lparr>name = ''x'', vartype = INTEGER, lowerbound = 0, upperbound = 10\<rparr>],
      linear_constraints =
        [\<lparr>lc_linear = [(''x'', 1)], lc_sense = LE, lc_rhs = 7, lc_name = ''c''\<rparr>],
      quadratic_constraints = [],
      objective = \<lparr>obj_constant = 0, obj_linear = [(''x'', 1)], obj_quadratic = [],
                   obj_sense = MAXIMIZE\<rparr>\<rparr>"

definition small_destination :: quadratic_program where
  "small_destination =
     \<lparr>qp_name = ''small'',
      variables =
        [\<lparr>name = ''x'', vartype = INTEGER, lowerbound = 0, upperbound = 10\<rparr>,
         \<lparr>name = ''c@int_slack'', vartype = INTEGER, lowerbound = 0, upperbound = 7\<rparr>],
      linear_constraints =
        [\<lparr>lc_linear = [(''x'', 1), (''c@int_slack'', 1)], lc_sense = EQ, lc_rhs = 7,
          lc_name = ''c''\<rparr>],
      quadratic_constraints = [],
      objective = \<lparr>obj_constant = 0, obj_linear = [(''x'', 1)], obj_quadratic = [],
                   obj_sense = MAXIMIZE\<rparr>\<rparr>"

definition small_converter :: converter where
  "small_converter =
     \<lparr>src = Some small_problem, dst = Some small_destination, mode = ''integer''\<rparr>"

definition float_problem :: quadratic_program where
  "float_problem =
     \<lparr>qp_name = ''float'',
      variables =
        [\<lparr>name = ''v'', vartype = INTEGER, lowerbound = 0, upperbound = 3\<rparr>,
         \<lparr>name = ''w'', vartype = INTEGER, lowerbound = 0, upperbound = 3\<rparr>],
      linear_constraints =
        [\<lparr>lc_linear = [(''v'', 1 / 2), (''w'', 1)], lc_sense = LE, lc_rhs = 2,
          lc_name = ''f''\<rparr>],
      quadratic_constraints = [],
      objective = \<lparr>obj_constant = 0, obj_linear = [], obj_quadratic = [],
                   obj_sense = MINIMIZE\<rparr>\<rparr>"

definition float_partial :: quadratic_program where
  "float_partial =
     \<lparr>qp_name = ''float'',
      variables =
        [\<lparr>name = ''v'', vartype = INTEGER, lowerbound = 0, upperbound = 3\<rparr>,
         \<lparr>name = ''w'', vartype = INTEGER, lowerbound = 0, upperbound = 3\<rparr>],
      linear_constraints = [],
      quadratic_constraints = [],
      objective = \<lparr>obj_constant = 0, obj_linear = [], obj_quadratic = [],
                   obj_sense = MINIMIZE\<rparr>\<rparr>"

definition fractional_bound_problem :: quadratic_program where
  "fractional_bound_problem =
     \<lparr>qp_name = ''fractional'',
      variables = [\<lparr>name = ''x'', vartype = CONTINUOUS, lowerbound = 1 / 2, upperbound = 10\<rparr>],
      linear_constraints =
        [\<lparr>lc_linear = [(''x'', 1)], lc_sense = LE, lc_rhs = 7, lc_name = ''c''\<rparr>],
      quadratic_constraints = [],
      objective = \<lparr>obj_constant = 0, obj_linear = [], obj_quadratic = [],
                   obj_sense = MINIMIZE\<rparr>\<rparr>"

definition fractional_bound_destination :: quadratic_program where
  "fractional_bound_destination =
     \<lparr>qp_name = ''fractional'',
      variables =
        [\<lparr>name = ''x'', vartype = CONTINUOUS, lowerbound = 1 / 2, upperbound = 10\<rparr>,
         \<lparr>name = ''c@int_slack'', vartype = INTEGER, lowerbound = 0, upperbound = 13 / 2\<rparr>],
      linear_constraints =
        [\<lparr>lc_linear = [(''x'', 1), (''c@int_slack'', 1)], lc_sense = EQ, lc_rhs = 7,
          lc_name = ''c''\<rparr>],
      quadratic_constraints = [],
      objective = \<lparr>obj_constant = 0, obj_linear = [], obj_quadratic = [],
                   obj_sense = MINIMIZE\<rparr>\<rparr>"

definition half_product_problem :: quadratic_program where
  "half_product_problem =
     \<lparr>qp_name = ''half'',
      variables =
        [\<lparr>name = ''x'', vartype = INTEGER, lowerbound = 0, upperbound = 10\<rparr>,
         \<lparr>name = ''y'', vartype = INTEGER, lowerbound = 0, upperbound = 10\<rparr>],
      linear_constraints = [],
      quadratic_constraints =
        [\<lparr>qc_linear = [], qc_quadratic = [((''x'', ''y''), 1 / 2)], qc_sense = LE,
          qc_rhs = 7, qc_name = ''q''\<rparr>],
      objective = \<lparr>obj_constant = 0, obj_linear = [], obj_quadratic = [],
                   obj_sense = MINIMIZE\<rparr>\<rparr>"

definition half_product_destination :: quadratic_program where
  "half_product_destination =
     \<lparr>qp_name = ''half'',
      variables =
        [\<lparr>name = ''x'', vartype = INTEGER, lowerbound = 0, upperbound = 10\<rparr>,
         \<lparr>name = ''y'', vartype = INTEGER, lowerbound = 0, upperbound = 10\<rparr>,
         \<lparr>name = ''q@int_slack'', vartype = INTEGER, lowerbound = 0, upperbound = 7\<rparr>],
      linear_constraints = [],
      quadratic_constraints =
        [\<lparr>qc_linear = [(''q@int_slack'', 1)], qc_quadratic = [((''x'', ''y''), 1 / 2)],
          qc_sense = EQ, qc_rhs = 7, qc_name = ''q''\<rparr>],
      objective = \<lparr>obj_constant = 0, obj_linear = [], obj_quadratic = [],
                   obj_sense = MINIMIZE\<rparr>\<rparr>"

definition tight_problem :: quadratic_program where
  "tight_problem =
     \<lparr>qp_name = ''tight'',
      variables =
        [\<lparr>name = ''x'', vartype = INTEGER, lowerbound = 0, upperbound = 10\<rparr>,
         \<lparr>name = ''y'', vartype = BINARY, lowerbound = 0, upperbound = 1\<rparr>],
      linear_constraints =
        [\<lparr>lc_linear = [(''x'', 1)], lc_sense = GE, lc_rhs = 10, lc_name = ''t0''\<rparr>],
      quadratic_constraints =
        [\<lparr>qc_linear = [], qc_quadratic = [((''x'', ''y''), 1)], qc_sense = LE, qc_rhs = 0,
          qc_name = ''t1''\<rparr>],
      objective = \<lparr>obj_constant = 0, obj_linear = [], obj_quadratic = [],
                   obj_sense = MINIMIZE\<rparr>\<rparr>"

definition tight_destination :: quadratic_program where
  "tight_destination =
     \<lparr>qp_name = ''tight'',
      variables =
        [\<lparr>name = ''x'', vartype = INTEGER, lowerbound = 0, upperbound = 10\<rparr>,
         \<lparr>name = ''y'', vartype = BINARY, lowerbound = 0, upperbound = 1\<rparr>],
      linear_constraints =
        [\<lparr>lc_linear = [(''x'', 1)], lc_sense = EQ, lc_rhs = 10, lc_name = ''t0''\<rparr>],
      quadratic_constraints =
        [\<lparr>qc_linear = [], qc_quadratic = [((''x'', ''y''), 1)], qc_sense = EQ, qc_rhs = 0,
          qc_name = ''t1''\<rparr>],
      objective = \<lparr>obj_constant = 0, obj_linear = [], obj_quadratic = [],
                   obj_sense = MINIMIZE\<rparr>\<rparr>"

section \<open>The phases of convert, one by one\<close>

lemma extends_refl: "extends d d"
  by (auto simp: extends_def intro: exI [of _ "[]"])

lemma extends_trans: "extends a b \<Longrightarrow> extends b c \<Longrightarrow> extends a c"
  by (auto simp: extends_def)

lemma on_dst_Some:
  "dst self = Some d \<Longrightarrow>
   on_dst f self = (case f d of Inl e \<Rightarrow> (Inl e, self) | Inr d' \<Rightarrow> (Inr (), self\<lparr>dst := Some d'\<rparr>))"
  by (simp add: on_dst_def)

lemma add_variable_Inr:
  "add_variable n t lb ub d = Inr d' \<Longrightarrow>
   d' = d\<lparr>variables := variables d @ [\<lparr>name = n, vartype = t, lowerbound = lb, upperbound = ub\<rparr>]\<rparr>
   \<and> n \<notin> set (names d)"
  by (auto simp: add_variable_def names_def split: if_splits)

lemma add_variable_Inl: "add_variable n t lb ub d = Inl e \<Longrightarrow> e = Duplicate_name n"
  by (auto simp: add_variable_def split: if_splits)

lemma add_variable_extends: "add_variable n t lb ub d = Inr d' \<Longrightarrow> extends d d'"
  by (auto simp: add_variable_def extends_def names_def split: if_splits)

lemma copy_variable_Inr:
  "copy_variable x d = Inr d' \<Longrightarrow>
   d' = d\<lparr>variables := variables d @ [copied x]\<rparr> \<and> name x \<notin> set (names d)"
  by (cases x)
     (auto simp: copy_variable_def copied_def binary_var_def integer_var_def
        continuous_var_def dest!: add_variable_Inr split: if_splits)

lemma copy_variable_Inl:
  "copy_variable x d = Inl e \<Longrightarrow> (\<forall>m. e \<noteq> Unsupported_mode m)"
  by (auto simp: copy_variable_def binary_var_def integer_var_def
        continuous_var_def dest!: add_variable_Inl split: if_splits)

lemma copy_variables_frame:
  "copy_variables xs self = (r, self') \<Longrightarrow> dst self = Some d \<Longrightarrow>
   \<exists>d'. self' = self\<lparr>dst := Some d'\<rparr> \<and> qp_name d' = qp_name d
        \<and> (\<forall>m. r \<noteq> Inl (Unsupported_mode m))"
proof (induction xs arbitrary: self d)
  case Nil
  then show ?case by (cases self) auto
next
  case (Cons x xs)
  show ?case
  proof (cases "copy_variable x d")
    case (Inl e)
    with Cons.prems show ?thesis
      by (cases self) (auto simp: on_dst_Some dest: copy_variable_Inl)
  next
    case (Inr d1)
    with Cons.prems have step: "copy_variables xs (self\<lparr>dst := Some d1\<rparr>) = (r, self')"
      by (simp add: on_dst_Some)
    from Inr have "qp_name d1 = qp_name d"
      by (auto dest: copy_variable_Inr)
    with Cons.IH [OF step, of d1] show ?thesis by auto
  qed
qed

lemma copy_variables_Inr:
  "copy_variables xs self = (Inr u, self') \<Longrightarrow> dst self = Some d \<Longrightarrow>
   self' = self\<lparr>dst := Some (d\<lparr>variables := variables d @ map copied xs\<rparr>)\<rparr>
   \<and> distinct (map name xs) \<and> set (map name xs) \<inter> set (names d) = {}"
proof (induction xs arbitrary: self d)
  case Nil
  then show ?case by (cases self) auto
next
  case (Cons x xs)
  show ?case
  proof (cases "copy_variable x d")
    case (Inl e)
    with Cons.prems show ?thesis by (simp add: on_dst_Some)
  next
    case (Inr d1)
    with Cons.prems have step: "copy_variables xs (self\<lparr>dst := Some d1\<rparr>) = (Inr u, self')"
      by (simp add: on_dst_Some)
    from Inr have d1: "d1 = d\<lparr>variables := variables d @ [copied x]\<rparr>" "name x \<notin> set (names d)"
      by (auto dest: copy_variable_Inr)
    have nm: "name (copied x) = name x" by (simp add: copied_def)
    from Cons.IH [OF step, of d1] d1 nm show ?thesis
      by (auto simp: names_def)
  qed
qed


lemma mode_name_Some:
  "mode_name m = Some tag \<Longrightarrow>
   (m = ''integer'' \<and> tag = ''int'') \<or> (m = ''continuous'' \<and> tag = ''continuous'')"
  by (auto simp: mode_name_def split: if_splits)

lemma add_slack_var_Inr:
  "add_slack_var m n ub sg lin d = Inr (lin', d') \<Longrightarrow>
   (ub \<le> 0 \<and> lin' = lin \<and> d' = d)
   \<or> (0 < ub \<and> (\<exists>tag. mode_name m = Some tag
         \<and> lin' = AList.update (slack_name n tag) sg lin
         \<and> slack_name n tag \<notin> set (names d)
         \<and> d' = d\<lparr>variables := variables d @
               [\<lparr>name = slack_name n tag,
                 vartype = (if m = ''integer'' then INTEGER else CONTINUOUS),
                 lowerbound = 0, upperbound = ub\<rparr>]\<rparr>))"
  unfolding add_slack_var_def integer_var_def continuous_var_def
  by (auto split: if_splits option.splits sum.splits
        dest!: add_variable_Inr mode_name_Some)

lemma add_slack_var_extends:
  "add_slack_var m n ub sg lin d = Inr (lin', d') \<Longrightarrow> extends d d'"
  by (drule add_slack_var_Inr) (auto simp: extends_def names_def intro: exI [of _ "[]"])

lemma add_slack_var_Inl:
  "add_slack_var m n ub sg lin d = Inl e \<Longrightarrow> (\<forall>k. e \<noteq> Unsupported_mode k)"
  unfolding add_slack_var_def integer_var_def continuous_var_def
  by (auto split: if_splits option.splits sum.splits dest!: add_variable_Inl)

lemma resolve_mode_Inl:
  "resolve_mode md af n = Inl e \<Longrightarrow> e = Float_coefficients n \<and> md = ''integer'' \<and> af"
  by (auto simp: resolve_mode_def split: if_splits)

lemma get_variable_Inl: "get_variable qp n = Inl e \<Longrightarrow> e = KeyError n"
  by (auto simp: get_variable_def split: option.splits)

lemma linear_bounds_Inl: "linear_bounds qp lin = Inl e \<Longrightarrow> \<exists>n. e = KeyError n"
  by (induction qp lin rule: linear_bounds.induct)
     (auto split: sum.splits dest: get_variable_Inl)

lemma quadratic_bounds_Inl: "quadratic_bounds qp quad = Inl e \<Longrightarrow> \<exists>n. e = KeyError n"
  by (induction qp quad rule: quadratic_bounds.induct)
     (auto split: sum.splits dest: get_variable_Inl)

lemma linear_slack_params_Inl:
  "linear_slack_params md owner c = Inl e \<Longrightarrow> (\<forall>k. e \<noteq> Unsupported_mode k)"
  unfolding linear_slack_params_def Let_def
  by (auto split: sum.splits prod.splits dest: resolve_mode_Inl linear_bounds_Inl)

lemma quadratic_slack_params_Inl:
  "quadratic_slack_params md owner c = Inl e \<Longrightarrow> (\<forall>k. e \<noteq> Unsupported_mode k)"
  unfolding quadratic_slack_params_def Let_def
  by (auto split: sum.splits prod.splits
        dest: resolve_mode_Inl linear_bounds_Inl quadratic_bounds_Inl)

lemma add_slack_var_linear_constraint_frame:
  assumes "add_slack_var_linear_constraint self owner c = (r, self')" and "dst self = Some d"
  shows "\<exists>d'. self' = self\<lparr>dst := Some d'\<rparr> \<and> extends d d'
           \<and> (\<forall>k. r \<noteq> Inl (Unsupported_mode k))"
  using assms unfolding add_slack_var_linear_constraint_def
  by (cases self)
     (auto split: sum.splits prod.splits
        dest: linear_slack_params_Inl add_slack_var_Inl add_slack_var_extends
        intro: extends_refl)

lemma add_slack_var_quadratic_constraint_frame:
  assumes "add_slack_var_quadratic_constraint self owner c = (r, self')" and "dst self = Some d"
  shows "\<exists>d'. self' = self\<lparr>dst := Some d'\<rparr> \<and> extends d d'
           \<and> (\<forall>k. r \<noteq> Inl (Unsupported_mode k))"
  using assms unfolding add_slack_var_quadratic_constraint_def
  by (cases self)
     (auto split: sum.splits prod.splits
        dest: quadratic_slack_params_Inl add_slack_var_Inl add_slack_var_extends
        intro: extends_refl)

lemma add_slack_var_linear_constraint_sense:
  "add_slack_var_linear_constraint self owner c = (Inr (lin, s, r, n), self') \<Longrightarrow> s = EQ"
  unfolding add_slack_var_linear_constraint_def
  by (auto split: option.splits sum.splits prod.splits)

lemma add_slack_var_quadratic_constraint_sense:
  "add_slack_var_quadratic_constraint self owner c = (Inr (lin, quad, s, r, n), self')
   \<Longrightarrow> s = EQ"
  unfolding add_slack_var_quadratic_constraint_def
  by (auto split: option.splits sum.splits prod.splits)

lemma slack_linear_constraints_frame:
  "slack_linear_constraints owner cs acc self = (r, self') \<Longrightarrow> dst self = Some d \<Longrightarrow>
   \<exists>d'. self' = self\<lparr>dst := Some d'\<rparr> \<and> extends d d'
        \<and> (\<forall>k. r \<noteq> Inl (Unsupported_mode k))"
proof (induction cs arbitrary: acc self d)
  case Nil
  then show ?case by (cases self) (auto intro: extends_refl)
next
  case (Cons c cs)
  show ?case
  proof (cases "lc_sense c = EQ")
    case True
    with Cons.prems Cons.IH show ?thesis by simp
  next
    case notEQ: False
    show ?thesis
    proof (cases "lc_sense c \<in> set [LE, GE]")
      case False
      with notEQ Cons.prems show ?thesis by (cases self) (auto intro: extends_refl)
    next
      case True
      obtain r1 self1 where one: "add_slack_var_linear_constraint self owner c = (r1, self1)"
        by (cases "add_slack_var_linear_constraint self owner c")
      from add_slack_var_linear_constraint_frame [OF one Cons.prems(2)]
      obtain d1 where d1: "self1 = self\<lparr>dst := Some d1\<rparr>" "extends d d1"
        "\<forall>k. r1 \<noteq> Inl (Unsupported_mode k)" by blast
      show ?thesis
      proof (cases r1)
        case (Inl e)
        with Cons.prems(1) notEQ True one d1 show ?thesis by auto
      next
        case (Inr args)
        with Cons.prems(1) notEQ True one
        have rest: "slack_linear_constraints owner cs (acc @ [args]) self1 = (r, self')"
          by simp
        have "dst self1 = Some d1" using d1 by simp
        from Cons.IH [OF rest this] d1 show ?thesis
          by (auto intro: extends_trans)
      qed
    qed
  qed
qed

lemma slack_quadratic_constraints_frame:
  "slack_quadratic_constraints owner cs acc self = (r, self') \<Longrightarrow> dst self = Some d \<Longrightarrow>
   \<exists>d'. self' = self\<lparr>dst := Some d'\<rparr> \<and> extends d d'
        \<and> (\<forall>k. r \<noteq> Inl (Unsupported_mode k))"
proof (induction cs arbitrary: acc self d)
  case Nil
  then show ?case by (cases self) (auto intro: extends_refl)
next
  case (Cons c cs)
  show ?case
  proof (cases "qc_sense c = EQ")
    case True
    with Cons.prems Cons.IH show ?thesis by simp
  next
    case notEQ: False
    show ?thesis
    proof (cases "qc_sense c \<in> set [LE, GE]")
      case False
      with notEQ Cons.prems show ?thesis by (cases self) (auto intro: extends_refl)
    next
      case True
      obtain r1 self1 where one: "add_slack_var_quadratic_constraint self owner c = (r1, self1)"
        by (cases "add_slack_var_quadratic_constraint self owner c")
      from add_slack_var_quadratic_constraint_frame [OF one Cons.prems(2)]
      obtain d1 where d1: "self1 = self\<lparr>dst := Some d1\<rparr>" "extends d d1"
        "\<forall>k. r1 \<noteq> Inl (Unsupported_mode k)" by blast
      show ?thesis
      proof (cases r1)
        case (Inl e)
        with Cons.prems(1) notEQ True one d1 show ?thesis by auto
      next
        case (Inr args)
        with Cons.prems(1) notEQ True one
        have rest: "slack_quadratic_constraints owner cs (acc @ [args]) self1 = (r, self')"
          by simp
        have "dst self1 = Some d1" using d1 by simp
        from Cons.IH [OF rest this] d1 show ?thesis
          by (auto intro: extends_trans)
      qed
    qed
  qed
qed

lemma slack_linear_constraints_sense:
  "slack_linear_constraints owner cs acc self = (Inr out, self') \<Longrightarrow>
   \<forall>a \<in> set acc. fst (snd a) = EQ \<Longrightarrow> \<forall>a \<in> set out. fst (snd a) = EQ"
proof (induction cs arbitrary: acc self)
  case Nil
  then show ?case by simp
next
  case (Cons c cs)
  show ?case
  proof (cases "lc_sense c = EQ")
    case True
    with Cons.prems have
      "slack_linear_constraints owner cs
         (acc @ [(lc_linear c, lc_sense c, lc_rhs c, lc_name c)]) self = (Inr out, self')"
      by simp
    from Cons.IH [OF this] True Cons.prems(2) show ?thesis by simp
  next
    case False
    with Cons.prems(1) obtain lin s r n self1 where
      one: "add_slack_var_linear_constraint self owner c = (Inr (lin, s, r, n), self1)" and
      rest: "slack_linear_constraints owner cs (acc @ [(lin, s, r, n)]) self1 = (Inr out, self')"
      by (auto split: if_splits sum.splits prod.splits)
    from add_slack_var_linear_constraint_sense [OF one] have "s = EQ" .
    with Cons.IH [OF rest] Cons.prems(2) show ?thesis by simp
  qed
qed

lemma slack_quadratic_constraints_sense:
  "slack_quadratic_constraints owner cs acc self = (Inr out, self') \<Longrightarrow>
   \<forall>a \<in> set acc. fst (snd (snd a)) = EQ \<Longrightarrow> \<forall>a \<in> set out. fst (snd (snd a)) = EQ"
proof (induction cs arbitrary: acc self)
  case Nil
  then show ?case by simp
next
  case (Cons c cs)
  show ?case
  proof (cases "qc_sense c = EQ")
    case True
    with Cons.prems have
      "slack_quadratic_constraints owner cs
         (acc @ [(qc_linear c, qc_quadratic c, qc_sense c, qc_rhs c, qc_name c)]) self
       = (Inr out, self')"
      by simp
    from Cons.IH [OF this] True Cons.prems(2) show ?thesis by simp
  next
    case False
    with Cons.prems(1) obtain lin quad s r n self1 where
      one: "add_slack_var_quadratic_constraint self owner c
            = (Inr (lin, quad, s, r, n), self1)" and
      rest: "slack_quadratic_constraints owner cs (acc @ [(lin, quad, s, r, n)]) self1
             = (Inr out, self')"
      by (auto split: if_splits sum.splits prod.splits)
    from add_slack_var_quadratic_constraint_sense [OF one] have "s = EQ" .
    with Cons.IH [OF rest] Cons.prems(2) show ?thesis by simp
  qed
qed


lemma linear_constraint_Inr:
  "linear_constraint lin s r n d = Inr d' \<Longrightarrow>
   d' = d\<lparr>linear_constraints := linear_constraints d @ [linear_record (lin, s, r, n)]\<rparr>"
  by (auto simp: linear_constraint_def linear_record_def split: option.splits)

lemma linear_constraint_Inl:
  "linear_constraint lin s r n d = Inl e \<Longrightarrow> \<exists>k. e = Undeclared_variable k"
  by (auto simp: linear_constraint_def split: option.splits)

lemma quadratic_constraint_Inr:
  "quadratic_constraint lin quad s r n d = Inr d' \<Longrightarrow>
   d' = d\<lparr>quadratic_constraints :=
           quadratic_constraints d @ [quadratic_record (lin, quad, s, r, n)]\<rparr>"
  by (auto simp: quadratic_constraint_def quadratic_record_def split: option.splits)

lemma quadratic_constraint_Inl:
  "quadratic_constraint lin quad s r n d = Inl e \<Longrightarrow> \<exists>k. e = Undeclared_variable k"
  by (auto simp: quadratic_constraint_def split: option.splits)

lemma add_linear_constraints_frame:
  "add_linear_constraints args self = (r, self') \<Longrightarrow> dst self = Some d \<Longrightarrow>
   \<exists>d'. self' = self\<lparr>dst := Some d'\<rparr> \<and> qp_name d' = qp_name d
        \<and> (\<forall>k. r \<noteq> Inl (Unsupported_mode k))"
proof (induction args self arbitrary: d rule: add_linear_constraints.induct)
  case (1 self)
  then show ?case by (cases self) auto
next
  case (2 lin s rh n rest self)
  show ?case
  proof (cases "linear_constraint lin s rh n d")
    case (Inl e)
    with "2.prems" show ?thesis
      by (cases self) (auto simp: on_dst_Some dest: linear_constraint_Inl)
  next
    case (Inr d1)
    with "2.prems" have one: "on_dst (linear_constraint lin s rh n) self
        = (Inr (), self\<lparr>dst := Some d1\<rparr>)"
      and step: "add_linear_constraints rest (self\<lparr>dst := Some d1\<rparr>) = (r, self')"
      by (simp_all add: on_dst_Some)
    from Inr have "qp_name d1 = qp_name d"
      by (auto dest: linear_constraint_Inr)
    with "2.IH" [OF one [symmetric] refl step, of d1] show ?thesis by auto
  qed
qed

lemma add_linear_constraints_Inr:
  "add_linear_constraints args self = (Inr u, self') \<Longrightarrow> dst self = Some d \<Longrightarrow>
   self' = self\<lparr>dst := Some (d\<lparr>linear_constraints :=
                                  linear_constraints d @ map linear_record args\<rparr>)\<rparr>"
proof (induction args self arbitrary: d rule: add_linear_constraints.induct)
  case (1 self)
  then show ?case by (cases self) auto
next
  case (2 lin s rh n rest self)
  show ?case
  proof (cases "linear_constraint lin s rh n d")
    case (Inl e)
    with "2.prems" show ?thesis by (simp add: on_dst_Some)
  next
    case (Inr d1)
    with "2.prems" have one: "on_dst (linear_constraint lin s rh n) self
        = (Inr (), self\<lparr>dst := Some d1\<rparr>)"
      and step: "add_linear_constraints rest (self\<lparr>dst := Some d1\<rparr>) = (Inr u, self')"
      by (simp_all add: on_dst_Some)
    from Inr have d1: "d1 = d\<lparr>linear_constraints :=
        linear_constraints d @ [linear_record (lin, s, rh, n)]\<rparr>"
      by (rule linear_constraint_Inr)
    from "2.IH" [OF one [symmetric] refl step, of d1] d1 show ?thesis by simp
  qed
qed

lemma add_quadratic_constraints_frame:
  "add_quadratic_constraints args self = (r, self') \<Longrightarrow> dst self = Some d \<Longrightarrow>
   \<exists>d'. self' = self\<lparr>dst := Some d'\<rparr> \<and> qp_name d' = qp_name d
        \<and> (\<forall>k. r \<noteq> Inl (Unsupported_mode k))"
proof (induction args self arbitrary: d rule: add_quadratic_constraints.induct)
  case (1 self)
  then show ?case by (cases self) auto
next
  case (2 lin quad s rh n rest self)
  show ?case
  proof (cases "quadratic_constraint lin quad s rh n d")
    case (Inl e)
    with "2.prems" show ?thesis
      by (cases self) (auto simp: on_dst_Some dest: quadratic_constraint_Inl)
  next
    case (Inr d1)
    with "2.prems" have one: "on_dst (quadratic_constraint lin quad s rh n) self
        = (Inr (), self\<lparr>dst := Some d1\<rparr>)"
      and step: "add_quadratic_constraints rest (self\<lparr>dst := Some d1\<rparr>) = (r, self')"
      by (simp_all add: on_dst_Some)
    from Inr have "qp_name d1 = qp_name d"
      by (auto dest: quadratic_constraint_Inr)
    with "2.IH" [OF one [symmetric] refl step, of d1] show ?thesis by auto
  qed
qed

lemma add_quadratic_constraints_Inr:
  "add_quadratic_constraints args self = (Inr u, self') \<Longrightarrow> dst self = Some d \<Longrightarrow>
   self' = self\<lparr>dst := Some (d\<lparr>quadratic_constraints :=
                                  quadratic_constraints d @ map quadratic_record args\<rparr>)\<rparr>"
proof (induction args self arbitrary: d rule: add_quadratic_constraints.induct)
  case (1 self)
  then show ?case by (cases self) auto
next
  case (2 lin quad s rh n rest self)
  show ?case
  proof (cases "quadratic_constraint lin quad s rh n d")
    case (Inl e)
    with "2.prems" show ?thesis by (simp add: on_dst_Some)
  next
    case (Inr d1)
    with "2.prems" have one: "on_dst (quadratic_constraint lin quad s rh n) self
        = (Inr (), self\<lparr>dst := Some d1\<rparr>)"
      and step: "add_quadratic_constraints rest (self\<lparr>dst := Some d1\<rparr>) = (Inr u, self')"
      by (simp_all add: on_dst_Some)
    from Inr have d1: "d1 = d\<lparr>quadratic_constraints :=
        quadratic_constraints d @ [quadratic_record (lin, quad, s, rh, n)]\<rparr>"
      by (rule quadratic_constraint_Inr)
    from "2.IH" [OF one [symmetric] refl step, of d1] d1 show ?thesis by simp
  qed
qed

lemma build_constraints_frame:
  assumes "build_constraints owner new_lin new_quad self = (r, self')" and "dst self = Some d"
  shows "\<exists>d'. self' = self\<lparr>dst := Some d'\<rparr> \<and> qp_name d' = qp_name d
           \<and> (\<forall>k. r \<noteq> Inl (Unsupported_mode k))"
proof -
  let ?d0 = "copy_objective owner d"
  let ?s1 = "self\<lparr>dst := Some ?d0\<rparr>"
  have n0: "qp_name ?d0 = qp_name d"
    by (simp add: copy_objective_def set_objective_def Let_def)
  obtain r2 self2 where two: "add_linear_constraints new_lin ?s1 = (r2, self2)"
    by (cases "add_linear_constraints new_lin ?s1")
  from add_linear_constraints_frame [OF two, of ?d0]
  obtain d2 where d2: "self2 = ?s1\<lparr>dst := Some d2\<rparr>" "qp_name d2 = qp_name ?d0"
    "\<forall>k. r2 \<noteq> Inl (Unsupported_mode k)" by auto
  obtain r3 self3 where three: "add_quadratic_constraints new_quad self2 = (r3, self3)"
    by (cases "add_quadratic_constraints new_quad self2")
  from add_quadratic_constraints_frame [OF three, of d2] d2
  obtain d3 where d3: "self3 = self2\<lparr>dst := Some d3\<rparr>" "qp_name d3 = qp_name d2"
    "\<forall>k. r3 \<noteq> Inl (Unsupported_mode k)" by auto
  show ?thesis
  proof (cases r2)
    case (Inl e)
    with assms two d2 n0 show ?thesis
      by (auto simp: build_constraints_def on_dst_Some)
  next
    case r2: (Inr u2)
    show ?thesis
    proof (cases r3)
      case (Inl e)
      with assms two three r2 d2 d3 n0 show ?thesis
        by (auto simp: build_constraints_def on_dst_Some)
    next
      case (Inr u3)
      with assms two three r2 d2 d3 n0 show ?thesis
        by (auto simp: build_constraints_def on_dst_Some)
    qed
  qed
qed

lemma build_constraints_Inr:
  assumes "build_constraints owner new_lin new_quad self = (Inr d', self')"
    and "dst self = Some d"
  shows "self' = self\<lparr>dst := Some d'\<rparr>
         \<and> d' = (copy_objective owner d)
                \<lparr>linear_constraints := linear_constraints d @ map linear_record new_lin,
                 quadratic_constraints :=
                   quadratic_constraints d @ map quadratic_record new_quad\<rparr>"
proof -
  let ?d0 = "copy_objective owner d"
  let ?s1 = "self\<lparr>dst := Some ?d0\<rparr>"
  have c0: "linear_constraints ?d0 = linear_constraints d"
    "quadratic_constraints ?d0 = quadratic_constraints d"
    by (simp_all add: copy_objective_def set_objective_def Let_def)
  from assms obtain self2 where two: "add_linear_constraints new_lin ?s1 = (Inr (), self2)"
    by (auto simp: build_constraints_def on_dst_Some split: sum.splits prod.splits)
  from add_linear_constraints_Inr [OF two, of ?d0]
  have s2: "self2 = ?s1\<lparr>dst := Some (?d0\<lparr>linear_constraints :=
      linear_constraints ?d0 @ map linear_record new_lin\<rparr>)\<rparr>" by simp
  from assms two obtain self3 where
    three: "add_quadratic_constraints new_quad self2 = (Inr (), self3)"
    and fin: "(case dst self3 of None \<Rightarrow> (Inl AttributeError, self3)
               | Some d \<Rightarrow> (Inr d, self3)) = (Inr d', self')"
    by (auto simp: build_constraints_def on_dst_Some split: sum.splits prod.splits)
  from add_quadratic_constraints_Inr [OF three] s2
  have s3: "self3 = self2\<lparr>dst := Some ((?d0\<lparr>linear_constraints :=
      linear_constraints ?d0 @ map linear_record new_lin\<rparr>)\<lparr>quadratic_constraints :=
      quadratic_constraints ?d0 @ map quadratic_record new_quad\<rparr>)\<rparr>" by simp
  with fin s2 c0 show ?thesis by (cases self) auto
qed

lemma extends_vars:
  "extends d d' \<Longrightarrow> \<exists>extra. d' = d\<lparr>variables := variables d @ extra\<rparr>"
  by (auto simp: extends_def)

lemma extends_distinct: "extends d d' \<Longrightarrow> distinct (names d) \<Longrightarrow> distinct (names d')"
  by (auto simp: extends_def)

section \<open>What a successful convert returns\<close>

lemma convert_Inr:
  assumes "convert self p = (Inr d, self')"
  shows "mode self \<in> set [''integer'', ''continuous'', ''auto'']
         \<and> self' = self\<lparr>src := Some p, dst := Some d\<rparr>
         \<and> distinct (names d)
         \<and> (\<exists>extra new_lin new_quad.
               d = (copy_objective p (QuadraticProgram (qp_name p)))
                     \<lparr>variables := map copied (variables p) @ extra,
                      linear_constraints := map linear_record new_lin,
                      quadratic_constraints := map quadratic_record new_quad\<rparr>
               \<and> (\<forall>a \<in> set new_lin. fst (snd a) = EQ)
               \<and> (\<forall>a \<in> set new_quad. fst (snd (snd a)) = EQ))"
proof -
  let ?d0 = "QuadraticProgram (qp_name p)"
  let ?s0 = "self\<lparr>src := Some p, dst := Some ?d0\<rparr>"
  from assms have md: "mode self \<in> set [''integer'', ''continuous'', ''auto'']"
    by (auto simp: convert_def Let_def split: if_splits)
  with assms obtain self1 new_lin self2 new_quad self3 where
    one: "copy_variables (variables p) ?s0 = (Inr (), self1)" and
    two: "slack_linear_constraints p (linear_constraints p) [] self1 = (Inr new_lin, self2)" and
    three: "slack_quadratic_constraints p (quadratic_constraints p) [] self2
            = (Inr new_quad, self3)" and
    four: "build_constraints p new_lin new_quad self3 = (Inr d, self')"
    by (auto simp: convert_def Let_def split: sum.splits prod.splits if_splits)
  let ?d1 = "?d0\<lparr>variables := variables ?d0 @ map copied (variables p)\<rparr>"
  from copy_variables_Inr [OF one, of ?d0]
  have s1: "self1 = ?s0\<lparr>dst := Some ?d1\<rparr>" and dist: "distinct (map name (variables p))"
    by simp_all
  have nm: "\<And>x. name (copied x) = name x" by (simp add: copied_def)
  have dist1: "distinct (names ?d1)"
    using dist by (simp add: names_def QuadraticProgram_def nm comp_def)
  from slack_linear_constraints_frame [OF two, of ?d1] s1
  obtain d2 where s2: "self2 = self1\<lparr>dst := Some d2\<rparr>" and e2: "extends ?d1 d2"
    by auto
  from slack_quadratic_constraints_frame [OF three, of d2] s2
  obtain d3 where s3: "self3 = self2\<lparr>dst := Some d3\<rparr>" and e3: "extends d2 d3"
    by auto
  from extends_trans [OF e2 e3] have e13: "extends ?d1 d3" .
  from extends_vars [OF e13] obtain extra where
    d3: "d3 = ?d1\<lparr>variables := variables ?d1 @ extra\<rparr>" by blast
  from extends_distinct [OF e13 dist1] have dist3: "distinct (names d3)" .
  from build_constraints_Inr [OF four, of d3] s3
  have fin: "self' = self3\<lparr>dst := Some d\<rparr>"
    "d = (copy_objective p d3)
           \<lparr>linear_constraints := linear_constraints d3 @ map linear_record new_lin,
            quadratic_constraints := quadratic_constraints d3 @ map quadratic_record new_quad\<rparr>"
    by simp_all
  have names_d: "names d = names d3"
    using fin(2) by (simp add: names_def copy_objective_def set_objective_def Let_def)
  have shape: "d = (copy_objective p ?d0)
                     \<lparr>variables := map copied (variables p) @ extra,
                      linear_constraints := map linear_record new_lin,
                      quadratic_constraints := map quadratic_record new_quad\<rparr>"
    using fin(2) d3
    by (simp add: copy_objective_def set_objective_def Let_def QuadraticProgram_def)
  from slack_linear_constraints_sense [OF two]
  have sl: "\<forall>a \<in> set new_lin. fst (snd a) = EQ" by simp
  from slack_quadratic_constraints_sense [OF three]
  have sq: "\<forall>a \<in> set new_quad. fst (snd (snd a)) = EQ" by simp
  have st: "self' = self\<lparr>src := Some p, dst := Some d\<rparr>"
    using fin(1) s3 s2 s1 by simp
  from md st dist3 names_d shape sl sq show ?thesis by metis
qed

lemma example_convert:
  "convert (init ''auto'') example_problem = (Inr example_destination, example_converter)"
  by code_simp

section \<open>Reading a solution back\<close>

lemma sol_nth:
  assumes "distinct ns" and "length ns = length x" and "i < length ns"
  shows "map_of (rev (zip ns x)) (ns ! i) = Some (x ! i)"
proof -
  let ?k = "length ns - Suc i"
  have k: "?k < length ns" using assms(3) by simp
  have z: "rev (zip ns x) = zip (rev ns) (rev x)"
    using assms(2) by (simp add: zip_rev)
  have "map_of (zip (rev ns) (rev x)) (rev ns ! ?k) = Some (rev x ! ?k)"
    using assms k by (intro map_of_zip_nth) simp_all
  moreover have "rev ns ! ?k = ns ! i" using assms(3) by (simp add: rev_nth)
  moreover have "rev x ! ?k = x ! i" using assms(2,3) by (simp add: rev_nth)
  ultimately show ?thesis by (simp add: z)
qed

lemma interpret_prefix:
  assumes st: "dst self = Some d" "src self = Some s"
    and v: "variables d = vs @ extra" "map name vs = map name (variables s)"
    and dist: "distinct (names d)"
    and len: "length x = length (variables d)"
  shows "interpret_solution self x = Inr (take (length (variables s)) x)"
proof -
  let ?ns = "map name (variables d)"
  let ?sol = "map_of (rev (zip ?ns x))"
  have n: "length vs = length (variables s)"
    using v(2) by (metis length_map)
  have look: "?sol (name (variables s ! i)) = Some (x ! i)" if "i < length (variables s)" for i
  proof -
    have "i < length ?ns" using that n v(1) by simp
    moreover have "?ns ! i = name (variables s ! i)"
    proof -
      have "?ns ! i = map name vs ! i" using that n v(1) by (simp add: nth_append)
      then show ?thesis using v(2) that by simp
    qed
    ultimately show ?thesis
      using sol_nth [of ?ns x i] dist len by (simp add: names_def)
  qed
  have none: "find (\<lambda>var. ?sol (name var) = None) (variables s) = None"
    unfolding find_None_iff
  proof
    assume "\<exists>var. var \<in> set (variables s) \<and> ?sol (name var) = None"
    then obtain i where "i < length (variables s)" "?sol (name (variables s ! i)) = None"
      by (auto simp: in_set_conv_nth)
    with look show False by simp
  qed
  have vals: "map (\<lambda>var. the (?sol (name var))) (variables s) = take (length (variables s)) x"
  proof (rule nth_equalityI)
    show "length (map (\<lambda>var. the (?sol (name var))) (variables s))
          = length (take (length (variables s)) x)"
      using len n v(1) by simp
  next
    fix i assume "i < length (map (\<lambda>var. the (?sol (name var))) (variables s))"
    then have i: "i < length (variables s)" by simp
    with look [OF i] show "map (\<lambda>var. the (?sol (name var))) (variables s) ! i
        = take (length (variables s)) x ! i" by simp
  qed
  have "\<not> length x < length ?ns" using len by simp
  with st none vals show ?thesis
    by (simp add: interpret_solution_def Let_def)
qed

section \<open>The converter state after any call\<close>

lemma convert_valid_mode:
  assumes "mode self \<in> set [''integer'', ''continuous'', ''auto'']"
  shows "convert self p =
     (case copy_variables (variables p)
             (self\<lparr>src := Some p, dst := Some (QuadraticProgram (qp_name p))\<rparr>) of
        (Inl e, self1) \<Rightarrow> (Inl e, self1)
      | (Inr u, self1) \<Rightarrow>
          (case slack_linear_constraints p (linear_constraints p) [] self1 of
             (Inl e, self2) \<Rightarrow> (Inl e, self2)
           | (Inr new_lin, self2) \<Rightarrow>
               (case slack_quadratic_constraints p (quadratic_constraints p) [] self2 of
                  (Inl e, self3) \<Rightarrow> (Inl e, self3)
                | (Inr new_quad, self3) \<Rightarrow>
                    build_constraints p new_lin new_quad self3)))"
proof -
  have m: "mode (self\<lparr>src := Some p, dst := Some (QuadraticProgram (qp_name p))\<rparr>)
           = mode self" by simp
  have "\<not> mode self \<notin> set [''integer'', ''continuous'', ''auto'']"
    using assms by blast
  then show ?thesis
    unfolding convert_def Let_def m by (rule if_not_P)
qed

lemma convert_frame:
  assumes "convert self p = (r, self')"
  shows "\<exists>d'. self' = self\<lparr>src := Some p, dst := Some d'\<rparr> \<and> qp_name d' = qp_name p
           \<and> (\<forall>k. r = Inl (Unsupported_mode k)
                  \<longleftrightarrow> (mode self \<notin> set [''integer'', ''continuous'', ''auto''] \<and> k = mode self))
           \<and> (mode self \<notin> set [''integer'', ''continuous'', ''auto'']
                  \<longrightarrow> d' = QuadraticProgram (qp_name p))"
proof (cases "mode self \<in> set [''integer'', ''continuous'', ''auto'']")
  case False
  with assms show ?thesis
    by (auto simp: convert_def Let_def QuadraticProgram_def)
next
  case True
  let ?d0 = "QuadraticProgram (qp_name p)"
  let ?s0 = "self\<lparr>src := Some p, dst := Some ?d0\<rparr>"
  have n0: "qp_name ?d0 = qp_name p" by (simp add: QuadraticProgram_def)
  obtain r1 self1 where one: "copy_variables (variables p) ?s0 = (r1, self1)"
    by (cases "copy_variables (variables p) ?s0")
  from copy_variables_frame [OF one, of ?d0] obtain d1 where
    d1: "self1 = ?s0\<lparr>dst := Some d1\<rparr>" "qp_name d1 = qp_name ?d0"
    "\<forall>k. r1 \<noteq> Inl (Unsupported_mode k)" by auto
  obtain r2 self2 where
    two: "slack_linear_constraints p (linear_constraints p) [] self1 = (r2, self2)"
    by (cases "slack_linear_constraints p (linear_constraints p) [] self1")
  from slack_linear_constraints_frame [OF two, of d1] d1 obtain d2 where
    d2: "self2 = self1\<lparr>dst := Some d2\<rparr>" "extends d1 d2"
    "\<forall>k. r2 \<noteq> Inl (Unsupported_mode k)" by auto
  obtain r3 self3 where
    three: "slack_quadratic_constraints p (quadratic_constraints p) [] self2 = (r3, self3)"
    by (cases "slack_quadratic_constraints p (quadratic_constraints p) [] self2")
  from slack_quadratic_constraints_frame [OF three, of d2] d2 obtain d3 where
    d3: "self3 = self2\<lparr>dst := Some d3\<rparr>" "extends d2 d3"
    "\<forall>k. r3 \<noteq> Inl (Unsupported_mode k)" by auto
  have n2: "qp_name d2 = qp_name d1" using d2(2) by (auto simp: extends_def)
  have n3: "qp_name d3 = qp_name d2" using d3(2) by (auto simp: extends_def)
  have "\<exists>d'. self' = self\<lparr>src := Some p, dst := Some d'\<rparr> \<and> qp_name d' = qp_name p
          \<and> (\<forall>k. r \<noteq> Inl (Unsupported_mode k))"
  proof (cases r1)
    case (Inl e)
    with assms one d1 n0 show ?thesis
      by (auto simp: convert_valid_mode [OF True])
  next
    case r1: (Inr u1)
    show ?thesis
    proof (cases r2)
      case (Inl e)
      with assms one two r1 d1 d2 n0 n2 show ?thesis
        by (auto simp: convert_valid_mode [OF True])
    next
      case r2: (Inr new_lin)
      show ?thesis
      proof (cases r3)
        case (Inl e)
        with assms one two three r1 r2 d1 d2 d3 n0 n2 n3 show ?thesis
          by (auto simp: convert_valid_mode [OF True])
      next
        case r3: (Inr new_quad)
        with assms one two three r1 r2
        have four: "build_constraints p new_lin new_quad self3 = (r, self')"
          by (simp add: convert_valid_mode [OF True])
        from build_constraints_frame [OF four, of d3] d3 obtain d4 where
          d4: "self' = self3\<lparr>dst := Some d4\<rparr>" "qp_name d4 = qp_name d3"
          "\<forall>k. r \<noteq> Inl (Unsupported_mode k)" by auto
        with d1 d2 d3 n0 n2 n3 show ?thesis by auto
      qed
    qed
  qed
  with True show ?thesis by auto
qed

section \<open>What convert computes, constraint by constraint\<close>

lemma add_slack_var_result:
  assumes "add_slack_var m n ub sg lin d = Inr (lin', d')"
  shows "lin' = slack_term m n ub sg lin
         \<and> d' = d\<lparr>variables := variables d @ slack_variables m n ub\<rparr>"
proof (cases "0 < ub")
  case False
  with add_slack_var_Inr [OF assms] show ?thesis
    by (auto simp: slack_term_def slack_variables_def)
next
  case True
  with add_slack_var_Inr [OF assms] obtain tag where
    t: "mode_name m = Some tag" and
    r: "lin' = AList.update (slack_name n tag) sg lin"
       "d' = d\<lparr>variables := variables d @
               [\<lparr>name = slack_name n tag,
                 vartype = (if m = ''integer'' then INTEGER else CONTINUOUS),
                 lowerbound = 0, upperbound = ub\<rparr>]\<rparr>"
    by auto
  from t have "tag_of m = tag" by (simp add: tag_of_def)
  with True r show ?thesis by (simp add: slack_term_def slack_variables_def)
qed

lemma add_slack_var_linear_constraint_Inr:
  assumes "add_slack_var_linear_constraint self owner c = (Inr a, self')"
    and "dst self = Some d"
  shows "linear_emitted (mode self) owner c = Some (linear_record a) \<or> lc_sense c = EQ"
    and "lc_sense c \<noteq> EQ \<Longrightarrow>
         self' = self\<lparr>dst := Some (d\<lparr>variables := variables d
                                         @ linear_slacks (mode self) owner c\<rparr>)\<rparr>"
  using assms unfolding add_slack_var_linear_constraint_def linear_emitted_def linear_slacks_def
  by (auto simp: linear_record_def linear_to_dict_def split: sum.splits prod.splits
        dest!: add_slack_var_result)

lemma add_slack_var_quadratic_constraint_Inr:
  assumes "add_slack_var_quadratic_constraint self owner c = (Inr a, self')"
    and "dst self = Some d"
  shows "quadratic_emitted (mode self) owner c = Some (quadratic_record a) \<or> qc_sense c = EQ"
    and "qc_sense c \<noteq> EQ \<Longrightarrow>
         self' = self\<lparr>dst := Some (d\<lparr>variables := variables d
                                         @ quadratic_slacks (mode self) owner c\<rparr>)\<rparr>"
  using assms unfolding add_slack_var_quadratic_constraint_def quadratic_emitted_def
    quadratic_slacks_def
  by (auto simp: quadratic_record_def linear_to_dict_def split: sum.splits prod.splits
        dest!: add_slack_var_result)

lemma slack_linear_constraints_Inr:
  "slack_linear_constraints owner cs acc self = (Inr out, self') \<Longrightarrow> dst self = Some d \<Longrightarrow>
   map (Some \<circ> linear_record) out
     = map (Some \<circ> linear_record) acc @ map (linear_emitted (mode self) owner) cs
   \<and> self' = self\<lparr>dst := Some (d\<lparr>variables := variables d
                     @ concat (map (linear_slacks (mode self) owner) cs)\<rparr>)\<rparr>"
proof (induction cs arbitrary: acc self d)
  case Nil
  then show ?case by (cases self) auto
next
  case (Cons c cs)
  show ?case
  proof (cases "lc_sense c = EQ")
    case True
    with Cons.prems have rest:
      "slack_linear_constraints owner cs
         (acc @ [(lc_linear c, lc_sense c, lc_rhs c, lc_name c)]) self = (Inr out, self')"
      by simp
    have rec: "linear_record (lc_linear c, lc_sense c, lc_rhs c, lc_name c) = c"
      by (cases c) (simp add: linear_record_def)
    from Cons.IH [OF rest Cons.prems(2)] True rec show ?thesis
      by (simp add: linear_emitted_def linear_slacks_def)
  next
    case False
    with Cons.prems(1) obtain a self1 where
      one: "add_slack_var_linear_constraint self owner c = (Inr a, self1)" and
      rest: "slack_linear_constraints owner cs (acc @ [a]) self1 = (Inr out, self')"
      by (auto split: if_splits sum.splits prod.splits)
    from add_slack_var_linear_constraint_Inr [OF one Cons.prems(2)] False
    have em: "linear_emitted (mode self) owner c = Some (linear_record a)"
      and s1: "self1 = self\<lparr>dst := Some (d\<lparr>variables := variables d
                 @ linear_slacks (mode self) owner c\<rparr>)\<rparr>"
      by simp_all
    have d1: "dst self1 = Some (d\<lparr>variables := variables d
                 @ linear_slacks (mode self) owner c\<rparr>)"
      and m1: "mode self1 = mode self" using s1 by simp_all
    from Cons.IH [OF rest d1] em s1 m1 show ?thesis by simp
  qed
qed

lemma slack_quadratic_constraints_Inr:
  "slack_quadratic_constraints owner cs acc self = (Inr out, self') \<Longrightarrow> dst self = Some d \<Longrightarrow>
   map (Some \<circ> quadratic_record) out
     = map (Some \<circ> quadratic_record) acc @ map (quadratic_emitted (mode self) owner) cs
   \<and> self' = self\<lparr>dst := Some (d\<lparr>variables := variables d
                     @ concat (map (quadratic_slacks (mode self) owner) cs)\<rparr>)\<rparr>"
proof (induction cs arbitrary: acc self d)
  case Nil
  then show ?case by (cases self) auto
next
  case (Cons c cs)
  show ?case
  proof (cases "qc_sense c = EQ")
    case True
    with Cons.prems have rest:
      "slack_quadratic_constraints owner cs
         (acc @ [(qc_linear c, qc_quadratic c, qc_sense c, qc_rhs c, qc_name c)]) self
       = (Inr out, self')"
      by simp
    have rec: "quadratic_record (qc_linear c, qc_quadratic c, qc_sense c, qc_rhs c, qc_name c)
               = c"
      by (cases c) (simp add: quadratic_record_def)
    from Cons.IH [OF rest Cons.prems(2)] True rec show ?thesis
      by (simp add: quadratic_emitted_def quadratic_slacks_def)
  next
    case False
    with Cons.prems(1) obtain a self1 where
      one: "add_slack_var_quadratic_constraint self owner c = (Inr a, self1)" and
      rest: "slack_quadratic_constraints owner cs (acc @ [a]) self1 = (Inr out, self')"
      by (auto split: if_splits sum.splits prod.splits)
    from add_slack_var_quadratic_constraint_Inr [OF one Cons.prems(2)] False
    have em: "quadratic_emitted (mode self) owner c = Some (quadratic_record a)"
      and s1: "self1 = self\<lparr>dst := Some (d\<lparr>variables := variables d
                 @ quadratic_slacks (mode self) owner c\<rparr>)\<rparr>"
      by simp_all
    have d1: "dst self1 = Some (d\<lparr>variables := variables d
                 @ quadratic_slacks (mode self) owner c\<rparr>)"
      and m1: "mode self1 = mode self" using s1 by simp_all
    from Cons.IH [OF rest d1] em s1 m1 show ?thesis by simp
  qed
qed

lemma convert_result:
  assumes "convert self p = (Inr d, self')"
  shows "variables d = map copied (variables p)
           @ concat (map (linear_slacks (mode self) p) (linear_constraints p))
           @ concat (map (quadratic_slacks (mode self) p) (quadratic_constraints p))"
    and "map Some (linear_constraints d)
           = map (linear_emitted (mode self) p) (linear_constraints p)"
    and "map Some (quadratic_constraints d)
           = map (quadratic_emitted (mode self) p) (quadratic_constraints p)"
    and "objective d = objective p"
proof -
  let ?d0 = "QuadraticProgram (qp_name p)"
  let ?s0 = "self\<lparr>src := Some p, dst := Some ?d0\<rparr>"
  from assms have md: "mode self \<in> set [''integer'', ''continuous'', ''auto'']"
    by (auto simp: convert_def Let_def split: if_splits)
  with assms obtain self1 new_lin self2 new_quad self3 where
    one: "copy_variables (variables p) ?s0 = (Inr (), self1)" and
    two: "slack_linear_constraints p (linear_constraints p) [] self1 = (Inr new_lin, self2)" and
    three: "slack_quadratic_constraints p (quadratic_constraints p) [] self2
            = (Inr new_quad, self3)" and
    four: "build_constraints p new_lin new_quad self3 = (Inr d, self')"
    by (auto simp: convert_valid_mode [OF md] split: sum.splits prod.splits)
  let ?d1 = "?d0\<lparr>variables := variables ?d0 @ map copied (variables p)\<rparr>"
  from copy_variables_Inr [OF one, of ?d0]
  have s1: "self1 = ?s0\<lparr>dst := Some ?d1\<rparr>" by simp
  let ?d2 = "?d1\<lparr>variables := variables ?d1
               @ concat (map (linear_slacks (mode self1) p) (linear_constraints p))\<rparr>"
  from slack_linear_constraints_Inr [OF two, of ?d1] s1
  have l2: "map (Some \<circ> linear_record) new_lin
            = map (linear_emitted (mode self1) p) (linear_constraints p)"
    and s2: "self2 = self1\<lparr>dst := Some ?d2\<rparr>" by simp_all
  let ?d3 = "?d2\<lparr>variables := variables ?d2
               @ concat (map (quadratic_slacks (mode self2) p) (quadratic_constraints p))\<rparr>"
  from slack_quadratic_constraints_Inr [OF three, of ?d2] s2
  have q3: "map (Some \<circ> quadratic_record) new_quad
            = map (quadratic_emitted (mode self2) p) (quadratic_constraints p)"
    and s3: "self3 = self2\<lparr>dst := Some ?d3\<rparr>" by simp_all
  have m: "mode self1 = mode self" "mode self2 = mode self" using s1 s2 by simp_all
  from build_constraints_Inr [OF four, of ?d3] s3
  have fin: "d = (copy_objective p ?d3)
           \<lparr>linear_constraints := linear_constraints ?d3 @ map linear_record new_lin,
            quadratic_constraints := quadratic_constraints ?d3 @ map quadratic_record new_quad\<rparr>"
    by simp
  show "variables d = map copied (variables p)
           @ concat (map (linear_slacks (mode self) p) (linear_constraints p))
           @ concat (map (quadratic_slacks (mode self) p) (quadratic_constraints p))"
    by (simp add: fin m copy_objective_def set_objective_def Let_def QuadraticProgram_def)
  have "linear_constraints d = map linear_record new_lin"
    by (simp add: fin copy_objective_def set_objective_def Let_def QuadraticProgram_def)
  with l2 m show "map Some (linear_constraints d)
           = map (linear_emitted (mode self) p) (linear_constraints p)"
    by (simp add: comp_def)
  have "quadratic_constraints d = map quadratic_record new_quad"
    by (simp add: fin copy_objective_def set_objective_def Let_def QuadraticProgram_def)
  with q3 m show "map Some (quadratic_constraints d)
           = map (quadratic_emitted (mode self) p) (quadratic_constraints p)"
    by (simp add: comp_def)
  show "objective d = objective p"
    by (cases "objective p")
       (auto simp add: fin copy_objective_def set_objective_def Let_def linear_to_dict_def
          intro: obj_sense.exhaust)
qed

lemma resolve_mode_valid:
  assumes "md \<in> set [''integer'', ''continuous'', ''auto'']"
    and "resolve_mode md af n = Inr m"
  shows "m = ''integer'' \<or> m = ''continuous''"
  using assms by (auto simp: resolve_mode_def split: if_splits)

lemma adjust_rhs_integer:
  "adjust_rhs ''integer'' LE r = of_int \<lfloor>r\<rfloor>"
  "adjust_rhs ''integer'' GE r = of_int \<lceil>r\<rceil>"
  by (simp_all add: adjust_rhs_def)

lemma adjust_rhs_continuous: "adjust_rhs ''continuous'' s r = r"
  by (simp add: adjust_rhs_def)

lemma linear_slack_params_Inr:
  assumes "linear_slack_params md owner c = Inr (m, nr, ub, sg)"
  shows "resolve_mode md (any_float (linear_to_array owner (lc_linear c))) (lc_name c) = Inr m"
    and "nr = adjust_rhs m (lc_sense c) (lc_rhs c)"
    and "\<exists>lhs_lb lhs_ub. linear_bounds owner (lc_linear c) = Inr (lhs_lb, lhs_ub)
           \<and> slack_bound (lc_sense c) nr lhs_lb lhs_ub = (ub, sg)"
  using assms unfolding linear_slack_params_def Let_def
  by (auto split: sum.splits prod.splits)

lemma quadratic_slack_params_Inr:
  assumes "quadratic_slack_params md owner c = Inr (m, nr, ub, sg)"
  shows "resolve_mode md (any_float (linear_to_array owner (qc_linear c))
            \<or> any_float (quadratic_to_array owner (qc_quadratic c))) (qc_name c) = Inr m"
    and "nr = adjust_rhs m (qc_sense c) (qc_rhs c)"
    and "\<exists>lin_lb lin_ub quad_lb quad_ub.
           linear_bounds owner (qc_linear c) = Inr (lin_lb, lin_ub)
           \<and> quadratic_bounds owner (qc_quadratic c) = Inr (quad_lb, quad_ub)
           \<and> slack_bound (qc_sense c) nr (lin_lb + quad_lb) (lin_ub + quad_ub) = (ub, sg)"
  using assms unfolding quadratic_slack_params_def Let_def
  by (auto split: sum.splits prod.splits)

lemma convert_linear_nth:
  assumes "convert self p = (Inr d, self')" and "i < length (linear_constraints p)"
    and "lc_sense (linear_constraints p ! i) \<noteq> EQ"
  shows "\<exists>m nr ub sg.
           linear_slack_params (mode self) p (linear_constraints p ! i) = Inr (m, nr, ub, sg)
           \<and> linear_constraints d ! i
               = \<lparr>lc_linear = slack_term m (lc_name (linear_constraints p ! i)) ub sg
                                (lc_linear (linear_constraints p ! i)),
                  lc_sense = EQ, lc_rhs = nr, lc_name = lc_name (linear_constraints p ! i)\<rparr>"
proof -
  let ?c = "linear_constraints p ! i"
  from convert_result(2) [OF assms(1)]
  have eq: "map Some (linear_constraints d)
            = map (linear_emitted (mode self) p) (linear_constraints p)" .
  then have len: "length (linear_constraints d) = length (linear_constraints p)"
    by (metis length_map)
  from eq have "map Some (linear_constraints d) ! i
      = map (linear_emitted (mode self) p) (linear_constraints p) ! i" by simp
  with assms(2) len have "linear_emitted (mode self) p ?c = Some (linear_constraints d ! i)"
    by simp
  with assms(3) show ?thesis
    by (auto simp: linear_emitted_def split: sum.splits)
qed

lemma convert_quadratic_nth:
  assumes "convert self p = (Inr d, self')" and "i < length (quadratic_constraints p)"
    and "qc_sense (quadratic_constraints p ! i) \<noteq> EQ"
  shows "\<exists>m nr ub sg.
           quadratic_slack_params (mode self) p (quadratic_constraints p ! i)
             = Inr (m, nr, ub, sg)
           \<and> quadratic_constraints d ! i
               = \<lparr>qc_linear = slack_term m (qc_name (quadratic_constraints p ! i)) ub sg
                                (qc_linear (quadratic_constraints p ! i)),
                  qc_quadratic = qc_quadratic (quadratic_constraints p ! i),
                  qc_sense = EQ, qc_rhs = nr,
                  qc_name = qc_name (quadratic_constraints p ! i)\<rparr>"
proof -
  let ?c = "quadratic_constraints p ! i"
  from convert_result(3) [OF assms(1)]
  have eq: "map Some (quadratic_constraints d)
            = map (quadratic_emitted (mode self) p) (quadratic_constraints p)" .
  then have len: "length (quadratic_constraints d) = length (quadratic_constraints p)"
    by (metis length_map)
  from eq have "map Some (quadratic_constraints d) ! i
      = map (quadratic_emitted (mode self) p) (quadratic_constraints p) ! i" by simp
  with assms(2) len
  have "quadratic_emitted (mode self) p ?c = Some (quadratic_constraints d ! i)"
    by simp
  with assms(3) show ?thesis
    by (auto simp: quadratic_emitted_def split: sum.splits)
qed

lemma rounding_facts:
  fixes r nr :: real
  assumes "m = ''integer'' \<or> m = ''continuous''" and "nr = adjust_rhs m s r"
  shows "(m = ''integer'' \<and> s = LE \<longrightarrow> nr = of_int \<lfloor>r\<rfloor> \<and> nr \<le> r)
         \<and> (m = ''integer'' \<and> s = GE \<longrightarrow> nr = of_int \<lceil>r\<rceil> \<and> r \<le> nr)
         \<and> (m = ''continuous'' \<longrightarrow> nr = r)"
  using assms by (auto simp: adjust_rhs_integer adjust_rhs_continuous)




lemma linear_slacks_redundant:
  assumes "\<forall>m nr ub sg. lc_sense c \<noteq> EQ \<and> linear_slack_params md p c = Inr (m, nr, ub, sg)
             \<longrightarrow> ub \<le> 0"
  shows "linear_slacks md p c = []"
  using assms
  by (auto simp: linear_slacks_def slack_variables_def split: sum.splits)

lemma quadratic_slacks_redundant:
  assumes "\<forall>m nr ub sg. qc_sense c \<noteq> EQ \<and> quadratic_slack_params md p c = Inr (m, nr, ub, sg)
             \<longrightarrow> ub \<le> 0"
  shows "quadratic_slacks md p c = []"
  using assms
  by (auto simp: quadratic_slacks_def slack_variables_def split: sum.splits)

lemma concat_all_Nil: "(\<And>x. x \<in> set xs \<Longrightarrow> f x = []) \<Longrightarrow> concat (map f xs) = []"
  by (induction xs) auto

lemma computed_slack_bound:
  assumes "linear_slack_params md p c = Inr (m, nr, ub, sg)"
  shows "\<exists>lhs_lb lhs_ub. linear_bounds p (lc_linear c) = Inr (lhs_lb, lhs_ub)
           \<and> (lc_sense c = LE \<longrightarrow> ub = nr - lhs_lb)
           \<and> (lc_sense c = GE \<longrightarrow> ub = lhs_ub - nr)"
  using linear_slack_params_Inr(3) [OF assms]
  by (auto simp: slack_bound_def Let_def)

lemma tight_convert:
  "convert (init ''auto'') tight_problem
   = (Inr tight_destination,
      \<lparr>src = Some tight_problem, dst = Some tight_destination, mode = ''auto''\<rparr>)"
  by code_simp

section \<open>Evaluating a rewritten constraint\<close>












section \<open>Which coefficients the float test sees\<close>

text \<open>
  The test \<^verbatim>\<open>_any_float\<close> sees the linear coefficients of the declared variables;
  of the quadratic coefficients it sees nothing. For a linear constraint the mode is
  therefore resolved by the integrality of its coefficients: the integer mode raises on a
  non-integral coefficient, \<^verbatim>\<open>auto\<close> picks \<^verbatim>\<open>continuous\<close> exactly then, and
  \<^verbatim>\<open>continuous\<close> stays.
\<close>

lemma any_float_quadratic: "any_float (quadratic_to_array owner quad) = False"
  by (simp add: any_float_def quadratic_to_array_def list_ex_iff)

lemma any_float_linear:
  "any_float (linear_to_array owner lin)
   \<longleftrightarrow> (\<exists>x \<in> set (variables owner). \<not> is_integer (coefficient lin (name x)))"
  by (simp add: any_float_def linear_to_array_def list_ex_iff)

lemma resolve_mode_cases:
  "resolve_mode ''integer'' True n = Inl (Float_coefficients n)"
  "resolve_mode ''integer'' False n = Inr ''integer''"
  "resolve_mode ''auto'' af n = Inr (if af then ''continuous'' else ''integer'')"
  "resolve_mode ''continuous'' af n = Inr ''continuous''"
  by (simp_all add: resolve_mode_def)

lemma linear_integer_mode_raises:
  assumes "dst self = Some d" and "mode self = ''integer''"
    and "\<exists>x \<in> set (variables owner). \<not> is_integer (coefficient (lc_linear c) (name x))"
  shows "add_slack_var_linear_constraint self owner c
         = (Inl (Float_coefficients (lc_name c)), self)"
proof -
  from assms(3) have "any_float (linear_to_array owner (lc_linear c))"
    by (simp add: any_float_linear)
  then have "linear_slack_params ''integer'' owner c = Inl (Float_coefficients (lc_name c))"
    by (simp add: linear_slack_params_def resolve_mode_cases)
  with assms(1,2) show ?thesis
    by (simp add: add_slack_var_linear_constraint_def)
qed

lemma linear_effective_mode:
  assumes "linear_slack_params md owner c = Inr (m, nr, ub, sg)"
  shows "md = ''auto'' \<Longrightarrow>
         m = (if \<exists>x \<in> set (variables owner). \<not> is_integer (coefficient (lc_linear c) (name x))
              then ''continuous'' else ''integer'')"
    and "md = ''continuous'' \<Longrightarrow> m = ''continuous''"
    and "md = ''integer'' \<Longrightarrow> m = ''integer''"
  using linear_slack_params_Inr(1) [OF assms]
  by (auto simp: resolve_mode_def any_float_linear split: if_splits)

section \<open>The claims\<close>

text \<open>
  C1. Every constraint, linear or quadratic, of the model returned by \<^verbatim>\<open>convert\<close>
  has the sense \<^verbatim>\<open>EQ\<close>: an equality constraint of the source is copied with its
  sense, and a rewritten inequality is emitted with the sense forced to equality.
\<close>

theorem convert_equality_only:
  assumes "convert self problem = (Inr d, self')"
  shows "(\<forall>c \<in> set (linear_constraints d). lc_sense c = EQ)
         \<and> (\<forall>c \<in> set (quadratic_constraints d). qc_sense c = EQ)"
proof -
  from convert_Inr [OF assms] obtain extra new_lin new_quad where
    d: "d = (copy_objective problem (QuadraticProgram (qp_name problem)))
              \<lparr>variables := map copied (variables problem) @ extra,
               linear_constraints := map linear_record new_lin,
               quadratic_constraints := map quadratic_record new_quad\<rparr>" and
    sl: "\<forall>a \<in> set new_lin. fst (snd a) = EQ" and
    sq: "\<forall>a \<in> set new_quad. fst (snd (snd a)) = EQ"
    by blast
  have "\<forall>c \<in> set (map linear_record new_lin). lc_sense c = EQ"
    using sl by (auto simp: linear_record_def split: prod.splits)
  moreover have "\<forall>c \<in> set (map quadratic_record new_quad). qc_sense c = EQ"
    using sq by (auto simp: quadratic_record_def split: prod.splits)
  ultimately show ?thesis by (simp add: d)
qed

theorem convert_equality_only_witness:
  "convert (init ''auto'') example_problem = (Inr example_destination, example_converter)
   \<and> map lc_sense (linear_constraints example_problem) = [LE, GE, EQ]
   \<and> list_all (\<lambda>c. lc_sense c = EQ) (linear_constraints example_destination)
   \<and> list_all (\<lambda>c. qc_sense c = EQ) (quadratic_constraints example_destination)"
proof -
  have s: "map lc_sense (linear_constraints example_problem) = [LE, GE, EQ]"
    by (simp add: example_problem_def)
  from convert_equality_only [OF example_convert] example_convert s show ?thesis
    by (simp add: list_all_iff)
qed

text \<open>
  C2. After a successful \<^verbatim>\<open>convert\<close>, for every vector \<open>x\<close> with one entry per
  variable of the returned model, \<^verbatim>\<open>interpret\<close> returns a vector with one entry
  per source variable; its entry at the index of a source variable is the entry of
  \<open>x\<close> at the index of the destination variable of the same name (which is the same
  index). The result is the prefix of \<open>x\<close> of that length: the entries of \<open>x\<close>
  at the slack variables do not appear in it.
\<close>

theorem interpret_after_convert:
  assumes "convert self problem = (Inr d, self')"
    and "length x = length (variables d)"
  shows "\<exists>y. interpret_solution self' x = Inr y
           \<and> length y = length (variables problem)
           \<and> y = take (length (variables problem)) x
           \<and> (\<forall>i < length (variables problem).
                 name (variables d ! i) = name (variables problem ! i) \<and> y ! i = x ! i
                 \<and> (\<forall>j < length (variables d).
                       name (variables d ! j) = name (variables problem ! i) \<longrightarrow>
                       y ! i = x ! j))"
proof -
  from convert_Inr [OF assms(1)] obtain extra new_lin new_quad where
    st: "self' = self\<lparr>src := Some problem, dst := Some d\<rparr>" and
    dist: "distinct (names d)" and
    d: "d = (copy_objective problem (QuadraticProgram (qp_name problem)))
              \<lparr>variables := map copied (variables problem) @ extra,
               linear_constraints := map linear_record new_lin,
               quadratic_constraints := map quadratic_record new_quad\<rparr>"
    by blast
  let ?n = "length (variables problem)"
  let ?y = "take ?n x"
  have v: "variables d = map copied (variables problem) @ extra" by (simp add: d)
  have nm: "map name (map copied (variables problem)) = map name (variables problem)"
    by (simp add: copied_def)
  have run: "interpret_solution self' x = Inr ?y"
    by (rule interpret_prefix [OF _ _ v nm dist assms(2)]) (simp_all add: st)
  have le: "?n \<le> length x" using assms(2) v by simp
  have pos: "name (variables d ! i) = name (variables problem ! i)" if "i < ?n" for i
    using that v by (simp add: nth_append copied_def)
  have uniq: "j = i" if "i < ?n" "j < length (variables d)"
    "name (variables d ! j) = name (variables problem ! i)" for i j
  proof -
    have lens: "i < length (variables d)" "j < length (variables d)"
      using that v by simp_all
    then have "names d ! j = name (variables d ! j)" "names d ! i = name (variables d ! i)"
      by (simp_all add: names_def)
    with that(3) pos [OF that(1)] have "names d ! j = names d ! i" by simp
    moreover have "i < length (names d)" "j < length (names d)"
      using lens by (simp_all add: names_def)
    ultimately show ?thesis using dist by (simp add: nth_eq_iff_index_eq)
  qed
  have "length ?y = ?n" using le by simp
  moreover have "\<forall>i < ?n. name (variables d ! i) = name (variables problem ! i) \<and> ?y ! i = x ! i
      \<and> (\<forall>j < length (variables d).
            name (variables d ! j) = name (variables problem ! i) \<longrightarrow> ?y ! i = x ! j)"
    using pos uniq by auto
  ultimately show ?thesis using run by blast
qed

theorem interpret_after_convert_witness:
  "convert (init ''auto'') example_problem = (Inr example_destination, example_converter)
   \<and> length [4, 1, 2, 0, 9, 5 :: real] = length (variables example_destination)
   \<and> interpret_solution example_converter [4, 1, 2, 0, 9, 5] = Inr [4, 1, 2]"
proof -
  have l: "length [4, 1, 2, 0, 9, 5 :: real] = length (variables example_destination)"
    by (simp add: example_destination_def)
  have n: "length (variables example_problem) = 3"
    by (simp add: example_problem_def)
  from interpret_after_convert [OF example_convert l] n example_convert l show ?thesis
    by auto
qed

text \<open>
  C3, as the code has it. Every source variable is found in the returned model at its own
  index, before every slack variable, with its name and kind; an integer or continuous
  variable keeps its bounds. A binary variable is registered by name alone
  (\<^verbatim>\<open>self._dst.binary_var(name=x.name)\<close>), so it carries the bounds 0 and 1 of a
  binary variable, whatever bounds the source variable had.
\<close>

theorem convert_preserves_variables:
  assumes "convert self problem = (Inr d, self')"
  shows "length (variables problem) \<le> length (variables d)
         \<and> take (length (variables problem)) (variables d) = map copied (variables problem)
         \<and> (\<forall>i < length (variables problem).
               name (variables d ! i) = name (variables problem ! i)
               \<and> vartype (variables d ! i) = vartype (variables problem ! i)
               \<and> (vartype (variables problem ! i) \<noteq> BINARY \<longrightarrow>
                    lowerbound (variables d ! i) = lowerbound (variables problem ! i)
                    \<and> upperbound (variables d ! i) = upperbound (variables problem ! i))
               \<and> (vartype (variables problem ! i) = BINARY \<longrightarrow>
                    lowerbound (variables d ! i) = 0 \<and> upperbound (variables d ! i) = 1))"
proof -
  from convert_Inr [OF assms] obtain extra new_lin new_quad where
    d: "d = (copy_objective problem (QuadraticProgram (qp_name problem)))
              \<lparr>variables := map copied (variables problem) @ extra,
               linear_constraints := map linear_record new_lin,
               quadratic_constraints := map quadratic_record new_quad\<rparr>"
    by blast
  then have v: "variables d = map copied (variables problem) @ extra" by simp
  show ?thesis
    by (simp add: v nth_append copied_def)
qed

theorem convert_preserves_variables_witness:
  "convert (init ''auto'') example_problem = (Inr example_destination, example_converter)
   \<and> take 3 (variables example_destination) = map copied (variables example_problem)
   \<and> (1::nat) < length (variables example_problem)
   \<and> vartype (variables example_problem ! 1) = BINARY
   \<and> name (variables example_destination ! 1) = name (variables example_problem ! 1)
   \<and> lowerbound (variables example_destination ! 1) = 0
   \<and> upperbound (variables example_destination ! 1) = 1"
proof -
  have l: "length (variables example_problem) = 3"
    and b: "vartype (variables example_problem ! 1) = BINARY"
    by (simp_all add: example_problem_def)
  from convert_preserves_variables [OF example_convert] l b example_convert
  show ?thesis by auto
qed

text \<open>
  C3 as stated fails for a binary variable whose bounds are not 0 and 1: the source
  variable \<^verbatim>\<open>b\<close> is fixed to 0 by its upper bound, the destination variable is not.
\<close>

theorem binary_bounds_counterexample:
  "convert (init ''auto'') fixed_binary_problem
     = (Inr fixed_binary_destination,
        \<lparr>src = Some fixed_binary_problem, dst = Some fixed_binary_destination,
         mode = ''auto''\<rparr>)
   \<and> variables fixed_binary_problem
       = [\<lparr>name = ''b'', vartype = BINARY, lowerbound = 0, upperbound = 0\<rparr>]
   \<and> variables fixed_binary_destination
       = [\<lparr>name = ''b'', vartype = BINARY, lowerbound = 0, upperbound = 1\<rparr>]
   \<and> upperbound (variables fixed_binary_destination ! 0)
       \<noteq> upperbound (variables fixed_binary_problem ! 0)"
  by code_simp

text \<open>
  C4 fails on quadratic constraints. \<^verbatim>\<open>_any_float\<close> iterates over the
  two-dimensional array of the quadratic coefficients, whose elements are rows, not
  floats: the test is false whatever the coefficients. With the quadratic coefficient 1/2
  on \<open>x y\<close>, mode \<^verbatim>\<open>integer\<close> raises no error and mode \<^verbatim>\<open>auto\<close>
  resolves to an integer slack.
\<close>

theorem quadratic_float_coefficient_undetected:
  "convert (init ''integer'') half_product_problem
     = (Inr half_product_destination,
        \<lparr>src = Some half_product_problem, dst = Some half_product_destination,
         mode = ''integer''\<rparr>)
   \<and> convert (init ''auto'') half_product_problem
     = (Inr half_product_destination,
        \<lparr>src = Some half_product_problem, dst = Some half_product_destination,
         mode = ''auto''\<rparr>)
   \<and> is_integer (1 / 2) = False
   \<and> any_float (quadratic_to_array half_product_problem [((''x'', ''y''), 1 / 2)]) = False
   \<and> variables half_product_destination ! 2
       = \<lparr>name = ''q@int_slack'', vartype = INTEGER, lowerbound = 0, upperbound = 7\<rparr>"
  by code_simp

text \<open>
  C5, as the code has it. \<^verbatim>\<open>convert\<close> begins by assigning \<^verbatim>\<open>self._src\<close> and
  \<^verbatim>\<open>self._dst\<close>, before the mode is checked. So after every call, returning or
  raising, the converter's source is the given problem and its destination is the model
  under construction for that problem (named after it); the mode is untouched. The state
  of an earlier successful conversion is not kept.
\<close>

theorem convert_replaces_state:
  "src (snd (convert self problem)) = Some problem
   \<and> mode (snd (convert self problem)) = mode self
   \<and> (\<exists>d. dst (snd (convert self problem)) = Some d \<and> qp_name d = qp_name problem)"
proof -
  obtain r self' where c: "convert self problem = (r, self')"
    by (cases "convert self problem")
  from convert_frame [OF c] c show ?thesis by auto
qed

text \<open>
  C5 as stated fails: after a successful conversion of \<^verbatim>\<open>small_problem\<close>, a call
  that raises (integer mode, coefficient 1/2) leaves the converter with the new source and
  a destination holding the two copied variables and no constraint; a later
  \<^verbatim>\<open>interpret\<close> reads the solution against that partial model.
\<close>

theorem failed_convert_counterexample:
  "convert (init ''integer'') small_problem = (Inr small_destination, small_converter)
   \<and> convert small_converter float_problem
       = (Inl (Float_coefficients ''f''),
          \<lparr>src = Some float_problem, dst = Some float_partial, mode = ''integer''\<rparr>)
   \<and> src small_converter \<noteq> Some float_problem
   \<and> dst small_converter \<noteq> Some float_partial
   \<and> interpret_solution small_converter [3, 4] = Inr [3]
   \<and> interpret_solution
         \<lparr>src = Some float_problem, dst = Some float_partial, mode = ''integer''\<rparr> [3, 4]
       = Inr [3, 4]"
  by code_simp




text \<open>
  C7. For every inequality constraint that \<^verbatim>\<open>convert\<close> processes, linear or
  quadratic, the effective mode is \<^verbatim>\<open>integer\<close> or \<^verbatim>\<open>continuous\<close>, and the
  right-hand side of the emitted constraint is the adjusted one: under the integer mode
  the floor of the original right-hand side for \<^verbatim>\<open>LE\<close> (hence not above it) and its
  ceiling for \<^verbatim>\<open>GE\<close> (hence not below it); under the continuous mode the original
  right-hand side.
\<close>

theorem integer_tightening:
  assumes "convert self problem = (Inr d, self')"
  shows "(\<forall>i < length (linear_constraints problem).
            lc_sense (linear_constraints problem ! i) \<noteq> EQ \<longrightarrow>
            (\<exists>m nr ub sg.
               linear_slack_params (mode self) problem (linear_constraints problem ! i)
                 = Inr (m, nr, ub, sg)
               \<and> (m = ''integer'' \<or> m = ''continuous'')
               \<and> lc_rhs (linear_constraints d ! i) = nr
               \<and> (m = ''integer'' \<and> lc_sense (linear_constraints problem ! i) = LE \<longrightarrow>
                    nr = of_int \<lfloor>lc_rhs (linear_constraints problem ! i)\<rfloor>
                    \<and> nr \<le> lc_rhs (linear_constraints problem ! i))
               \<and> (m = ''integer'' \<and> lc_sense (linear_constraints problem ! i) = GE \<longrightarrow>
                    nr = of_int \<lceil>lc_rhs (linear_constraints problem ! i)\<rceil>
                    \<and> lc_rhs (linear_constraints problem ! i) \<le> nr)
               \<and> (m = ''continuous'' \<longrightarrow> nr = lc_rhs (linear_constraints problem ! i))))
       \<and> (\<forall>i < length (quadratic_constraints problem).
            qc_sense (quadratic_constraints problem ! i) \<noteq> EQ \<longrightarrow>
            (\<exists>m nr ub sg.
               quadratic_slack_params (mode self) problem (quadratic_constraints problem ! i)
                 = Inr (m, nr, ub, sg)
               \<and> (m = ''integer'' \<or> m = ''continuous'')
               \<and> qc_rhs (quadratic_constraints d ! i) = nr
               \<and> (m = ''integer'' \<and> qc_sense (quadratic_constraints problem ! i) = LE \<longrightarrow>
                    nr = of_int \<lfloor>qc_rhs (quadratic_constraints problem ! i)\<rfloor>
                    \<and> nr \<le> qc_rhs (quadratic_constraints problem ! i))
               \<and> (m = ''integer'' \<and> qc_sense (quadratic_constraints problem ! i) = GE \<longrightarrow>
                    nr = of_int \<lceil>qc_rhs (quadratic_constraints problem ! i)\<rceil>
                    \<and> qc_rhs (quadratic_constraints problem ! i) \<le> nr)
               \<and> (m = ''continuous'' \<longrightarrow> nr = qc_rhs (quadratic_constraints problem ! i))))"
proof (intro conjI allI impI)
  from convert_Inr [OF assms]
  have md: "mode self \<in> set [''integer'', ''continuous'', ''auto'']" by blast
  {
    fix i assume i: "i < length (linear_constraints problem)"
      and ne: "lc_sense (linear_constraints problem ! i) \<noteq> EQ"
    let ?c = "linear_constraints problem ! i"
    from convert_linear_nth [OF assms i ne] obtain m nr ub sg where
      par: "linear_slack_params (mode self) problem ?c = Inr (m, nr, ub, sg)" and
      out: "lc_rhs (linear_constraints d ! i) = nr" by auto
    from resolve_mode_valid [OF md linear_slack_params_Inr(1) [OF par]]
    have m: "m = ''integer'' \<or> m = ''continuous''" .
    note rf = rounding_facts [OF m linear_slack_params_Inr(2) [OF par]]
    have "linear_slack_params (mode self) problem ?c = Inr (m, nr, ub, sg)
               \<and> (m = ''integer'' \<or> m = ''continuous'')
               \<and> lc_rhs (linear_constraints d ! i) = nr
               \<and> (m = ''integer'' \<and> lc_sense ?c = LE \<longrightarrow>
                    nr = of_int \<lfloor>lc_rhs ?c\<rfloor> \<and> nr \<le> lc_rhs ?c)
               \<and> (m = ''integer'' \<and> lc_sense ?c = GE \<longrightarrow>
                    nr = of_int \<lceil>lc_rhs ?c\<rceil> \<and> lc_rhs ?c \<le> nr)
               \<and> (m = ''continuous'' \<longrightarrow> nr = lc_rhs ?c)"
      using par m out rf by (intro conjI) simp_all
    then show "\<exists>m nr ub sg.
               linear_slack_params (mode self) problem ?c = Inr (m, nr, ub, sg)
               \<and> (m = ''integer'' \<or> m = ''continuous'')
               \<and> lc_rhs (linear_constraints d ! i) = nr
               \<and> (m = ''integer'' \<and> lc_sense ?c = LE \<longrightarrow>
                    nr = of_int \<lfloor>lc_rhs ?c\<rfloor> \<and> nr \<le> lc_rhs ?c)
               \<and> (m = ''integer'' \<and> lc_sense ?c = GE \<longrightarrow>
                    nr = of_int \<lceil>lc_rhs ?c\<rceil> \<and> lc_rhs ?c \<le> nr)
               \<and> (m = ''continuous'' \<longrightarrow> nr = lc_rhs ?c)"
      by (intro exI)
  }
  {
    fix i assume i: "i < length (quadratic_constraints problem)"
      and ne: "qc_sense (quadratic_constraints problem ! i) \<noteq> EQ"
    let ?c = "quadratic_constraints problem ! i"
    from convert_quadratic_nth [OF assms i ne] obtain m nr ub sg where
      par: "quadratic_slack_params (mode self) problem ?c = Inr (m, nr, ub, sg)" and
      out: "qc_rhs (quadratic_constraints d ! i) = nr" by auto
    from resolve_mode_valid [OF md quadratic_slack_params_Inr(1) [OF par]]
    have m: "m = ''integer'' \<or> m = ''continuous''" .
    note rf = rounding_facts [OF m quadratic_slack_params_Inr(2) [OF par]]
    have "quadratic_slack_params (mode self) problem ?c = Inr (m, nr, ub, sg)
               \<and> (m = ''integer'' \<or> m = ''continuous'')
               \<and> qc_rhs (quadratic_constraints d ! i) = nr
               \<and> (m = ''integer'' \<and> qc_sense ?c = LE \<longrightarrow>
                    nr = of_int \<lfloor>qc_rhs ?c\<rfloor> \<and> nr \<le> qc_rhs ?c)
               \<and> (m = ''integer'' \<and> qc_sense ?c = GE \<longrightarrow>
                    nr = of_int \<lceil>qc_rhs ?c\<rceil> \<and> qc_rhs ?c \<le> nr)
               \<and> (m = ''continuous'' \<longrightarrow> nr = qc_rhs ?c)"
      using par m out rf by (intro conjI) simp_all
    then show "\<exists>m nr ub sg.
               quadratic_slack_params (mode self) problem ?c = Inr (m, nr, ub, sg)
               \<and> (m = ''integer'' \<or> m = ''continuous'')
               \<and> qc_rhs (quadratic_constraints d ! i) = nr
               \<and> (m = ''integer'' \<and> qc_sense ?c = LE \<longrightarrow>
                    nr = of_int \<lfloor>qc_rhs ?c\<rfloor> \<and> nr \<le> qc_rhs ?c)
               \<and> (m = ''integer'' \<and> qc_sense ?c = GE \<longrightarrow>
                    nr = of_int \<lceil>qc_rhs ?c\<rceil> \<and> qc_rhs ?c \<le> nr)
               \<and> (m = ''continuous'' \<longrightarrow> nr = qc_rhs ?c)"
      by (intro exI)
  }
qed

theorem integer_tightening_witness:
  "convert (init ''auto'') example_problem = (Inr example_destination, example_converter)
   \<and> lc_sense (linear_constraints example_problem ! 0) = LE
   \<and> linear_slack_params ''auto'' example_problem (linear_constraints example_problem ! 0)
       = Inr (''integer'', 3, 3, 1)
   \<and> lc_rhs (linear_constraints example_problem ! 0) = 7 / 2
   \<and> lc_rhs (linear_constraints example_destination ! 0) = 3
   \<and> lc_sense (linear_constraints example_problem ! 1) = GE
   \<and> linear_slack_params ''auto'' example_problem (linear_constraints example_problem ! 1)
       = Inr (''continuous'', 3, 9, - 1)
   \<and> lc_rhs (linear_constraints example_destination ! 1)
       = lc_rhs (linear_constraints example_problem ! 1)"
proof -
  have l: "(0::nat) < length (linear_constraints example_problem)"
    "(1::nat) < length (linear_constraints example_problem)"
    by (simp_all add: example_problem_def)
  have s: "lc_sense (linear_constraints example_problem ! 0) = LE"
    "lc_sense (linear_constraints example_problem ! 1) = GE"
    "lc_rhs (linear_constraints example_problem ! 0) = 7 / 2"
    by (simp_all add: example_problem_def)
  have p0: "linear_slack_params ''auto'' example_problem (linear_constraints example_problem ! 0)
       = Inr (''integer'', 3, 3, 1)" by code_simp
  have p1: "linear_slack_params ''auto'' example_problem (linear_constraints example_problem ! 1)
       = Inr (''continuous'', 3, 9, - 1)" by code_simp
  have md: "mode (init ''auto'') = ''auto''" by (simp add: init_def)
  note T = integer_tightening [OF example_convert, unfolded md, THEN conjunct1, rule_format]
  have n0: "lc_sense (linear_constraints example_problem ! 0) \<noteq> EQ"
    and n1: "lc_sense (linear_constraints example_problem ! 1) \<noteq> EQ"
    using s by simp_all
  from T [OF l(1) n0] obtain m nr ub sg where
    "linear_slack_params ''auto'' example_problem (linear_constraints example_problem ! 0)
       = Inr (m, nr, ub, sg)" "lc_rhs (linear_constraints example_destination ! 0) = nr"
    by (elim exE conjE)
  with p0 have r0: "lc_rhs (linear_constraints example_destination ! 0) = 3" by simp
  from T [OF l(2) n1] obtain m nr ub sg where
    "linear_slack_params ''auto'' example_problem (linear_constraints example_problem ! 1)
       = Inr (m, nr, ub, sg)" "lc_rhs (linear_constraints example_destination ! 1) = nr"
    "m = ''continuous'' \<longrightarrow> nr = lc_rhs (linear_constraints example_problem ! 1)"
    by (elim exE conjE)
  with p1 have r1: "lc_rhs (linear_constraints example_destination ! 1)
       = lc_rhs (linear_constraints example_problem ! 1)" by simp
  from example_convert s p0 p1 r0 r1 show ?thesis by simp
qed

text \<open>
  C8. The variables of the returned model are the copied source variables followed by
  the slack variables of the linear and then of the quadratic constraints. For every
  inequality constraint whose computed slack upper bound (adjusted right-hand side minus
  interval lower bound for \<^verbatim>\<open>LE\<close>, interval upper bound minus adjusted right-hand side
  for \<^verbatim>\<open>GE\<close>) is not positive, no variable is created and the constraint is emitted
  as an equality at the adjusted right-hand side, with its own linear (and quadratic)
  terms and no slack term. If that holds for every inequality constraint, the returned
  model has exactly the copied source variables.
\<close>

theorem no_slack_when_redundant:
  assumes "convert self problem = (Inr d, self')"
  shows "variables d = map copied (variables problem)
           @ concat (map (linear_slacks (mode self) problem) (linear_constraints problem))
           @ concat (map (quadratic_slacks (mode self) problem)
                      (quadratic_constraints problem))
       \<and> (\<forall>i < length (linear_constraints problem). \<forall>m nr ub sg.
            lc_sense (linear_constraints problem ! i) \<noteq> EQ
            \<and> linear_slack_params (mode self) problem (linear_constraints problem ! i)
                = Inr (m, nr, ub, sg)
            \<and> ub \<le> 0 \<longrightarrow>
            linear_slacks (mode self) problem (linear_constraints problem ! i) = []
            \<and> linear_constraints d ! i
                = \<lparr>lc_linear = lc_linear (linear_constraints problem ! i), lc_sense = EQ,
                   lc_rhs = nr, lc_name = lc_name (linear_constraints problem ! i)\<rparr>)
       \<and> (\<forall>i < length (quadratic_constraints problem). \<forall>m nr ub sg.
            qc_sense (quadratic_constraints problem ! i) \<noteq> EQ
            \<and> quadratic_slack_params (mode self) problem (quadratic_constraints problem ! i)
                = Inr (m, nr, ub, sg)
            \<and> ub \<le> 0 \<longrightarrow>
            quadratic_slacks (mode self) problem (quadratic_constraints problem ! i) = []
            \<and> quadratic_constraints d ! i
                = \<lparr>qc_linear = qc_linear (quadratic_constraints problem ! i),
                   qc_quadratic = qc_quadratic (quadratic_constraints problem ! i),
                   qc_sense = EQ, qc_rhs = nr,
                   qc_name = qc_name (quadratic_constraints problem ! i)\<rparr>)
       \<and> ((\<forall>c \<in> set (linear_constraints problem). \<forall>m nr ub sg.
              lc_sense c \<noteq> EQ \<and> linear_slack_params (mode self) problem c = Inr (m, nr, ub, sg)
              \<longrightarrow> ub \<le> 0)
          \<and> (\<forall>c \<in> set (quadratic_constraints problem). \<forall>m nr ub sg.
              qc_sense c \<noteq> EQ
              \<and> quadratic_slack_params (mode self) problem c = Inr (m, nr, ub, sg)
              \<longrightarrow> ub \<le> 0)
          \<longrightarrow> variables d = map copied (variables problem)
              \<and> length (variables d) = length (variables problem))"
proof (intro conjI allI impI)
  note vars = convert_result(1) [OF assms]
  show "variables d = map copied (variables problem)
           @ concat (map (linear_slacks (mode self) problem) (linear_constraints problem))
           @ concat (map (quadratic_slacks (mode self) problem)
                      (quadratic_constraints problem))"
    by (rule vars)
  {
    fix i m nr ub sg
    let ?c = "linear_constraints problem ! i"
    assume i: "i < length (linear_constraints problem)"
      and h: "lc_sense ?c \<noteq> EQ
              \<and> linear_slack_params (mode self) problem ?c = Inr (m, nr, ub, sg) \<and> ub \<le> 0"
    from h show "linear_slacks (mode self) problem ?c = []"
      by (simp add: linear_slacks_def slack_variables_def)
    from convert_linear_nth [OF assms i] h
    show "linear_constraints d ! i
            = \<lparr>lc_linear = lc_linear ?c, lc_sense = EQ, lc_rhs = nr, lc_name = lc_name ?c\<rparr>"
      by (auto simp: slack_term_def)
  }
  {
    fix i m nr ub sg
    let ?c = "quadratic_constraints problem ! i"
    assume i: "i < length (quadratic_constraints problem)"
      and h: "qc_sense ?c \<noteq> EQ
              \<and> quadratic_slack_params (mode self) problem ?c = Inr (m, nr, ub, sg)
              \<and> ub \<le> 0"
    from h show "quadratic_slacks (mode self) problem ?c = []"
      by (simp add: quadratic_slacks_def slack_variables_def)
    from convert_quadratic_nth [OF assms i] h
    show "quadratic_constraints d ! i
            = \<lparr>qc_linear = qc_linear ?c, qc_quadratic = qc_quadratic ?c, qc_sense = EQ,
               qc_rhs = nr, qc_name = qc_name ?c\<rparr>"
      by (auto simp: slack_term_def)
  }
  {
    assume all: "(\<forall>c \<in> set (linear_constraints problem). \<forall>m nr ub sg.
              lc_sense c \<noteq> EQ \<and> linear_slack_params (mode self) problem c = Inr (m, nr, ub, sg)
              \<longrightarrow> ub \<le> 0)
          \<and> (\<forall>c \<in> set (quadratic_constraints problem). \<forall>m nr ub sg.
              qc_sense c \<noteq> EQ
              \<and> quadratic_slack_params (mode self) problem c = Inr (m, nr, ub, sg)
              \<longrightarrow> ub \<le> 0)"
    have l: "concat (map (linear_slacks (mode self) problem) (linear_constraints problem)) = []"
      by (rule concat_all_Nil, rule linear_slacks_redundant) (use all in blast)
    have q: "concat (map (quadratic_slacks (mode self) problem)
                      (quadratic_constraints problem)) = []"
      by (rule concat_all_Nil, rule quadratic_slacks_redundant) (use all in blast)
    from vars l q show v: "variables d = map copied (variables problem)" by simp
    then show "length (variables d) = length (variables problem)" by simp
  }
qed

theorem no_slack_when_redundant_witness:
  "convert (init ''auto'') tight_problem
     = (Inr tight_destination,
        \<lparr>src = Some tight_problem, dst = Some tight_destination, mode = ''auto''\<rparr>)
   \<and> lc_sense (linear_constraints tight_problem ! 0) = GE
   \<and> linear_slack_params ''auto'' tight_problem (linear_constraints tight_problem ! 0)
       = Inr (''integer'', 10, 0, 0)
   \<and> quadratic_slack_params ''auto'' tight_problem (quadratic_constraints tight_problem ! 0)
       = Inr (''integer'', 0, 0, 0)
   \<and> linear_constraints tight_destination ! 0
       = \<lparr>lc_linear = [(''x'', 1)], lc_sense = EQ, lc_rhs = 10, lc_name = ''t0''\<rparr>
   \<and> variables tight_destination = map copied (variables tight_problem)
   \<and> length (variables tight_destination) = length (variables tight_problem)"
proof -
  have md: "mode (init ''auto'') = ''auto''" by (simp add: init_def)
  note T = no_slack_when_redundant [OF tight_convert, unfolded md]
  have lcs: "linear_constraints tight_problem
      = [\<lparr>lc_linear = [(''x'', 1)], lc_sense = GE, lc_rhs = 10, lc_name = ''t0''\<rparr>]"
    and qcs: "quadratic_constraints tight_problem
      = [\<lparr>qc_linear = [], qc_quadratic = [((''x'', ''y''), 1)], qc_sense = LE, qc_rhs = 0,
          qc_name = ''t1''\<rparr>]"
    by (simp_all add: tight_problem_def)
  have p0: "linear_slack_params ''auto'' tight_problem (linear_constraints tight_problem ! 0)
       = Inr (''integer'', 10, 0, 0)" by code_simp
  have q0: "quadratic_slack_params ''auto'' tight_problem
       (quadratic_constraints tight_problem ! 0) = Inr (''integer'', 0, 0, 0)" by code_simp
  have i: "0 < length (linear_constraints tight_problem)" by (simp add: lcs)
  have h: "lc_sense (linear_constraints tight_problem ! 0) \<noteq> EQ
           \<and> linear_slack_params ''auto'' tight_problem (linear_constraints tight_problem ! 0)
               = Inr (''integer'', 10, 0, 0) \<and> (0::real) \<le> 0"
    using p0 by (simp add: lcs)
  from T [THEN conjunct2, THEN conjunct1, rule_format, OF i h]
  have e: "linear_constraints tight_destination ! 0
       = \<lparr>lc_linear = [(''x'', 1)], lc_sense = EQ, lc_rhs = 10, lc_name = ''t0''\<rparr>"
    by (simp add: lcs)
  have all: "(\<forall>c \<in> set (linear_constraints tight_problem). \<forall>m nr ub sg.
              lc_sense c \<noteq> EQ \<and> linear_slack_params ''auto'' tight_problem c = Inr (m, nr, ub, sg)
              \<longrightarrow> ub \<le> 0)
          \<and> (\<forall>c \<in> set (quadratic_constraints tight_problem). \<forall>m nr ub sg.
              qc_sense c \<noteq> EQ
              \<and> quadratic_slack_params ''auto'' tight_problem c = Inr (m, nr, ub, sg)
              \<longrightarrow> ub \<le> 0)"
    using p0 q0 by (simp add: lcs qcs)
  from T [THEN conjunct2, THEN conjunct2, THEN conjunct2, rule_format, OF all]
  have v: "variables tight_destination = map copied (variables tight_problem)"
    "length (variables tight_destination) = length (variables tight_problem)"
    by simp_all
  from tight_convert p0 q0 e v show ?thesis by (simp add: lcs)
qed

text \<open>
  C9. Assigning the mode stores the value and touches nothing else; the setter has no
  failing branch, whatever the value. \<^verbatim>\<open>convert\<close> raises the unsupported-mode
  error exactly when the stored mode is none of \<^verbatim>\<open>integer\<close>,
  \<^verbatim>\<open>continuous\<close>, \<^verbatim>\<open>auto\<close>, and then before any variable is copied: the
  destination is still the empty model.
\<close>

theorem mode_checked_by_convert:
  "get_mode (set_mode m self) = m
   \<and> src (set_mode m self) = src self
   \<and> dst (set_mode m self) = dst self
   \<and> (\<forall>k. fst (convert (set_mode m self) problem) = Inl (Unsupported_mode k)
          \<longleftrightarrow> (m \<notin> set [''integer'', ''continuous'', ''auto''] \<and> k = m))
   \<and> (m \<notin> set [''integer'', ''continuous'', ''auto''] \<longrightarrow>
        convert (set_mode m self) problem
          = (Inl (Unsupported_mode m),
             \<lparr>src = Some problem, dst = Some (QuadraticProgram (qp_name problem)), mode = m\<rparr>))"
proof -
  obtain r self' where c: "convert (set_mode m self) problem = (r, self')"
    by (cases "convert (set_mode m self) problem")
  from convert_frame [OF c] c show ?thesis
    by (cases self) (auto simp: set_mode_def get_mode_def)
qed

theorem mode_checked_by_convert_witness:
  "''bad'' \<notin> set [''integer'', ''continuous'', ''auto'']
   \<and> get_mode (set_mode ''bad'' small_converter) = ''bad''
   \<and> convert (set_mode ''bad'' small_converter) float_problem
       = (Inl (Unsupported_mode ''bad''),
          \<lparr>src = Some float_problem, dst = Some (QuadraticProgram (qp_name float_problem)),
           mode = ''bad''\<rparr>)"
proof -
  have b: "''bad'' \<notin> set [''integer'', ''continuous'', ''auto'']" by simp
  from mode_checked_by_convert [of "''bad''" small_converter float_problem] b
  show ?thesis by blast
qed

text \<open>
  C10. There is an input on which \<^verbatim>\<open>convert\<close>, in mode \<^verbatim>\<open>auto\<close> as in mode
  \<^verbatim>\<open>integer\<close>, creates an integer slack variable with a non-integral upper bound:
  the constraint \<open>x \<le> 7\<close> has the integral coefficient 1, the continuous variable
  \<open>x\<close> has the lower bound 1/2, and the slack bound 7 - 1/2 is passed on unrounded.
\<close>

theorem integer_slack_fractional_bound:
  "convert (init ''auto'') fractional_bound_problem
     = (Inr fractional_bound_destination,
        \<lparr>src = Some fractional_bound_problem, dst = Some fractional_bound_destination,
         mode = ''auto''\<rparr>)
   \<and> convert (init ''integer'') fractional_bound_problem
     = (Inr fractional_bound_destination,
        \<lparr>src = Some fractional_bound_problem, dst = Some fractional_bound_destination,
         mode = ''integer''\<rparr>)
   \<and> any_float (linear_to_array fractional_bound_problem [(''x'', 1)]) = False
   \<and> variables fractional_bound_destination ! 1
       = \<lparr>name = ''c@int_slack'', vartype = INTEGER, lowerbound = 0, upperbound = 13 / 2\<rparr>
   \<and> is_integer (13 / 2) = False"
  by code_simp

end
